theory Spec2Isabelle
  imports Main "HOL-Library.Finite_Map" "HOL-Library.Sublist" "HOL-Library.Word"
begin

section \<open>Go values that travel through the facade\<close>

text \<open>
  The facade passes untyped data (\<^verbatim>\<open>interface{}\<close>) to the engine and to the log.
  A value carries its dynamic type; \<open>Nil\<close> is the nil interface, which has none.
  A struct value lists, for every field, its name, its static type and its content.
  Floating-point values are left out.
\<close>

datatype gtype =
    TBool | TInt | TString | TIface
  | TPtr gtype | TSlice gtype
  | TStruct string "(string \<times> gtype) list"

datatype gval =
    Nil
  | VBool bool
  | VInt int
  | VString string
  | VPtr gtype "gval option"
  | VSlice gtype "gval list option"
  | VStruct string "(string \<times> gtype \<times> gval) list"

text \<open>A variadic parameter \<^verbatim>\<open>args ...interface{}\<close> seen as one value, the slice
  the callee receives: nil when the call passes no argument.\<close>

definition slice_of :: "gval list \<Rightarrow> gval" where
  "slice_of args = (if args = [] then VSlice TIface None else VSlice TIface (Some args))"

definition strings_of :: "string list \<Rightarrow> gval" where
  "strings_of vs = (if vs = [] then VSlice TString None else VSlice TString (Some (map VString vs)))"

section \<open>Errors\<close>

text \<open>
  \<open>ErrInternal\<close> and \<open>ErrNotFound\<close> are the two sentinels of package common;
  \<open>ErrRecordNotFound\<close> is gorm's sentinel and \<open>ErrTxDone\<close> the one of database/sql.
  \<open>ErrWrap\<close> is an error whose Unwrap method returns the inner error. The Go type
  \<^verbatim>\<open>error\<close> is \<open>go_error option\<close>, with \<open>None\<close> for nil.
\<close>

datatype go_error =
    ErrInternal
  | ErrNotFound
  | ErrRecordNotFound
  | ErrTxDone
  | ErrOther string
  | ErrWrap string go_error

fun unwraps_to :: "go_error \<Rightarrow> go_error \<Rightarrow> bool" where
  "unwraps_to (ErrWrap s e) target = (ErrWrap s e = target \<or> unwraps_to e target)"
| "unwraps_to e target = (e = target)"

text \<open>\<^verbatim>\<open>errors.Is(err, target)\<close> for a non-nil target: follows the Unwrap chain of err.\<close>

definition errors_Is :: "go_error option \<Rightarrow> go_error \<Rightarrow> bool" where
  "errors_Is err target = (case err of None \<Rightarrow> False | Some e \<Rightarrow> unwraps_to e target)"

section \<open>Package common: the call-trace collector\<close>

record Frame =
  Function :: string
  File :: string
  Line :: int

text \<open>\<^verbatim>\<open>strings.Contains(s, substr)\<close>: substr occurs in s at some position.\<close>

fun strings_Contains :: "string \<Rightarrow> string \<Rightarrow> bool" where
  "strings_Contains [] substr = (substr = [])"
| "strings_Contains (c # s) substr = (prefix substr (c # s) \<or> strings_Contains s substr)"

text \<open>
  The call stack is a list of frames, innermost first. \<^verbatim>\<open>runtime.Callers(skip, pc)\<close>
  runs with its own frame on top: skip 0 identifies the frame of Callers itself and
  skip 1 the caller of Callers; at most \<^verbatim>\<open>len(pc)\<close> frames are recorded.
\<close>

definition runtime_Callers :: "nat \<Rightarrow> nat \<Rightarrow> Frame list \<Rightarrow> Frame list" where
  "runtime_Callers skip n stack = take n (drop skip stack)"

text \<open>\<^verbatim>\<open>frames.Next()\<close>: the next frame, whether more frames follow, and the rest. On an
  exhausted iterator the frame is the zero Frame.\<close>

definition zero_Frame :: Frame where
  "zero_Frame = \<lparr>Function = [], File = [], Line = 0\<rparr>"

fun frames_Next :: "Frame list \<Rightarrow> Frame \<times> bool \<times> Frame list" where
  "frames_Next [] = (zero_Frame, False, [])"
| "frames_Next (f # fs) = (f, fs \<noteq> [], fs)"

definition projectName :: string where
  "projectName = ''myProject''"

text \<open>The loop of GetFrames: \<^verbatim>\<open>for more := true; more; { ... }\<close>. The loop
  variable \<^verbatim>\<open>more\<close> is \<open>more0\<close> here.\<close>

function GetFrames_loop :: "bool \<Rightarrow> Frame list \<Rightarrow> Frame list \<Rightarrow> Frame list" where
  "GetFrames_loop more0 frames res =
     (if more0 then
        (case frames_Next frames of (frameCandidate, more', frames') \<Rightarrow>
           if \<not> strings_Contains (Function frameCandidate) projectName then res
           else GetFrames_loop more' frames'
                  (res @ [\<lparr>Function = Function frameCandidate, File = File frameCandidate,
                           Line = Line frameCandidate\<rparr>]))
      else res)"
  by pat_completeness auto
termination
  by (relation "measure (\<lambda>(more0, frames, res). if more0 then Suc (length frames) else 0)")
     (auto, case_tac frames, auto)

declare GetFrames_loop.simps [simp del]

text \<open>\<open>stack\<close> is the stack at the moment \<^verbatim>\<open>runtime.Callers\<close> runs inside GetFrames: in a
  run of the program its first frame is the one of runtime.Callers, its second the one
  of GetFrames, its third the one of the function that called GetFrames.\<close>

definition GetFrames :: "Frame list \<Rightarrow> Frame list" where
  "GetFrames stack =
     (let maxLength = (99::nat);
          pcs = runtime_Callers 2 maxLength stack;
          n = length pcs
      in if n > 0 then GetFrames_loop True pcs [] else [])"

section \<open>The engine handle, the log and the heap\<close>

text \<open>
  The wrapped engine is not part of this repository. Its handle \<^verbatim>\<open>*gorm.DB\<close> is the
  sequence of calls made on it since the connection was opened: every engine method
  returns a handle that extends the one it is called on. The handle is a value here.
  The engine may extend a handle in place, so that two facades that hold one
  \<^verbatim>\<open>*gorm.DB\<close> see the calls of each other; this sharing inside the engine is not
  followed, and no statement below compares the handles of different facades.
\<close>

datatype engine_call =
    E_Preload string "gval list"
  | E_Debug
  | E_Unscoped
  | E_Model gval
  | E_Select gval "gval list"
  | E_Table string
  | E_Limit int
  | E_Offset int
  | E_Order gval
  | E_Joins string "gval list"
  | E_Set string gval
  | E_Clauses_OnConflict_DoNothing
  | E_Omit "string list"
  | E_Where gval "gval list"
  | E_Not gval "gval list"
  | E_Group string
  | E_Having gval "gval list"
  | E_Raw string "gval list"
  | E_Pluck string gval
  | E_First gval "gval list"
  | E_Last gval "gval list"
  | E_Take gval "gval list"
  | E_Find gval "gval list"
  | E_Scan gval
  | E_Create gval
  | E_Save gval
  | E_Updates gval
  | E_Delete gval "gval list"
  | E_Count
  | E_Exec string "gval list"
  | E_FindInBatches gval int
  | E_Begin
  | E_Commit
  | E_Rollback

type_synonym gormDB = "engine_call list"

text \<open>What a key of \<^verbatim>\<open>logrus.Fields\<close> holds: a value as it is, the string that
  \<^verbatim>\<open>pretty.Print\<close>, \<^verbatim>\<open>fmt.Sprintf("%T", _)\<close> or \<^verbatim>\<open>fmt.Sprintf("%+v", _)\<close> makes of a
  value (the formatters are external, so the string is kept symbolic), or a call trace.\<close>

datatype tval =
    Plain gval
  | Pretty gval
  | TypeName gval
  | PlusV gval
  | Frames "Frame list"

type_synonym Fields = "(string, tval) fmap"

datatype log_level = ErrorLevel

record log_entry =
  level :: log_level
  err_field :: "go_error option"
  data :: Fields
  message :: string

record preload =
  field :: string
  conditions :: "gval list"

text \<open>A Go slice: a window of \<open>len\<close> elements, with room for \<open>cap\<close>, that starts at
  offset \<open>off\<close> of the backing array at address \<open>arr\<close>. The nil slice is \<open>None\<close>.\<close>

record slice =
  arr :: nat
  off :: nat
  len :: nat
  cap :: nat

text \<open>
  The heap holds what the facades share by reference: the \<^verbatim>\<open>logrus.Fields\<close> maps
  (the address of a map is its index in \<open>maps\<close>) and the backing arrays of the preload
  slices. \<open>logged\<close> is the log sink and \<open>issued\<close> the statements handed to the engine for
  execution, oldest first.
\<close>

record world =
  maps :: "Fields list"
  arrays :: "preload list list"
  logged :: "log_entry list"
  issued :: "gormDB list"

record Model =
  db :: gormDB
  logTrace :: "nat option"
  preloads :: "slice option"

text \<open>
  The answers of the engine: the \<^verbatim>\<open>Error\<close> field of the handle a finished statement
  returns, the number \<^verbatim>\<open>Count\<close> writes through its pointer, and the run of
  \<^verbatim>\<open>FindInBatches\<close>, which calls the function it is given as often as it likes.
\<close>

record engine =
  result :: "gormDB \<Rightarrow> go_error option"
  counted :: "gormDB \<Rightarrow> 64 word"
  batches :: "gormDB \<Rightarrow> (gormDB \<Rightarrow> int \<Rightarrow> go_error option) \<Rightarrow> go_error option"

definition run_stmt :: "gormDB \<Rightarrow> world \<Rightarrow> world" where
  "run_stmt stmt w = w\<lparr>issued := issued w @ [stmt]\<rparr>"

text \<open>\<^verbatim>\<open>logrus.WithError(err).WithFields(f).Error(msg)\<close> and the bare \<^verbatim>\<open>logrus.Error(msg)\<close>.\<close>

definition log_Error :: "go_error option \<Rightarrow> Fields \<Rightarrow> string \<Rightarrow> world \<Rightarrow> world" where
  "log_Error err f msg w =
     w\<lparr>logged := logged w @ [\<lparr>level = ErrorLevel, err_field = err, data = f, message = msg\<rparr>]\<rparr>"

section \<open>The transaction envelope\<close>

definition Begin :: "Model \<Rightarrow> Model" where
  "Begin m = \<lparr>db = db m @ [E_Begin], logTrace = None, preloads = None\<rparr>"

definition Commit :: "engine \<Rightarrow> Model \<Rightarrow> world \<Rightarrow> go_error option \<times> world" where
  "Commit eng m w =
     (let stmt = db m @ [E_Commit]; w1 = run_stmt stmt w; err = result eng stmt
      in if err \<noteq> None
         then (Some ErrInternal, log_Error err fmempty ''can't commit transaction'' w1)
         else (None, w1))"

text \<open>The \<open>err\<close> declared by the if statement shadows the parameter only inside the if:
  it is \<open>err'\<close> here.\<close>

definition RollbackWithError :: "engine \<Rightarrow> go_error option \<Rightarrow> Model \<Rightarrow> world \<Rightarrow> go_error option \<times> world" where
  "RollbackWithError eng err m w =
     (let stmt = db m @ [E_Rollback]; w1 = run_stmt stmt w; err' = result eng stmt;
          w2 = (if err' \<noteq> None then log_Error err' fmempty ''can't rollback transaction'' w1 else w1)
      in (err, w2))"

definition RollBack :: "engine \<Rightarrow> Model \<Rightarrow> world \<Rightarrow> world" where
  "RollBack eng m w =
     (let stmt = db m @ [E_Rollback]; w1 = run_stmt stmt w; err = result eng stmt
      in if err = None then w1
         else if errors_Is err ErrTxDone then w1
         else log_Error err fmempty ''can't rollback transaction'' w1)"

section \<open>The query builder facade: heap access\<close>

text \<open>The content of the trace map a facade points to; a nil map has no entries, which
  is also what \<^verbatim>\<open>WithFields\<close> makes of it.\<close>

definition trace_fields :: "world \<Rightarrow> Model \<Rightarrow> Fields" where
  "trace_fields w m = (case logTrace m of None \<Rightarrow> fmempty | Some a \<Rightarrow> maps w ! a)"

text \<open>\<^verbatim>\<open>initLogTrace\<close>: a nil map is replaced by a newly made one, any other map is
  returned as it is, by reference.\<close>

definition initLogTrace :: "nat option \<Rightarrow> world \<Rightarrow> nat \<times> world" where
  "initLogTrace trace w =
     (case trace of
        None \<Rightarrow> (length (maps w), w\<lparr>maps := maps w @ [fmempty]\<rparr>)
      | Some a \<Rightarrow> (a, w))"

text \<open>\<^verbatim>\<open>trace[k] = v\<close> on the map at address \<open>a\<close>.\<close>

definition map_store :: "nat \<Rightarrow> string \<Rightarrow> tval \<Rightarrow> world \<Rightarrow> world" where
  "map_store a k v w = w\<lparr>maps := (maps w)[a := fmupd k v (maps w ! a)]\<rparr>"

definition slice_len :: "slice option \<Rightarrow> nat" where
  "slice_len s = (case s of None \<Rightarrow> 0 | Some sl \<Rightarrow> len sl)"

definition slice_cap :: "slice option \<Rightarrow> nat" where
  "slice_cap s = (case s of None \<Rightarrow> 0 | Some sl \<Rightarrow> cap sl)"

text \<open>The elements \<^verbatim>\<open>s[0], ..., s[len(s)-1]\<close> a slice shows.\<close>

definition slice_elems :: "world \<Rightarrow> slice option \<Rightarrow> preload list" where
  "slice_elems w s =
     (case s of None \<Rightarrow> [] | Some sl \<Rightarrow> take (len sl) (drop (off sl) (arrays w ! arr sl)))"

text \<open>\<^verbatim>\<open>s[i]\<close>, read where the caller has checked \<^verbatim>\<open>i < len(s)\<close>.\<close>

definition slice_index :: "world \<Rightarrow> slice option \<Rightarrow> nat \<Rightarrow> preload" where
  "slice_index w s i = arrays w ! arr (the s) ! (off (the s) + i)"

text \<open>\<^verbatim>\<open>s[1:]\<close>, taken where the caller has checked \<^verbatim>\<open>len(s) > 0\<close>.\<close>

definition slice_from1 :: "slice option \<Rightarrow> slice option" where
  "slice_from1 s =
     (case s of None \<Rightarrow> None
      | Some sl \<Rightarrow> Some (sl\<lparr>off := off sl + 1, len := len sl - 1, cap := cap sl - 1\<rparr>))"

definition zero_preload :: preload where
  "zero_preload = \<lparr>field = [], conditions = []\<rparr>"

text \<open>
  \<^verbatim>\<open>append(s, x)\<close>. When the capacity of \<open>s\<close> has room, the element is written into the
  backing array of \<open>s\<close>, right behind the window of \<open>s\<close>, and the result shares that
  array. Otherwise a new array is allocated, the elements are copied and the result
  points to the new array. How much room a new array gets is the runtime's choice:
  \<open>grow n\<close> is consulted for a slice that must hold \<open>n\<close> elements, and at least \<open>n\<close>
  are provided.
\<close>

definition go_append :: "(nat \<Rightarrow> nat) \<Rightarrow> slice option \<Rightarrow> preload \<Rightarrow> world \<Rightarrow> slice option \<times> world" where
  "go_append grow s x w =
     (if slice_len s < slice_cap s then
        (Some ((the s)\<lparr>len := len (the s) + 1\<rparr>),
         w\<lparr>arrays := (arrays w)[arr (the s) :=
                        (arrays w ! arr (the s))[off (the s) + len (the s) := x]]\<rparr>)
      else
        (let n = slice_len s + 1;
             c = max n (grow n);
             a = length (arrays w)
         in (Some \<lparr>arr = a, off = 0, len = n, cap = c\<rparr>,
             w\<lparr>arrays := arrays w @ [slice_elems w s @ [x] @ replicate (c - n) zero_preload]\<rparr>)))"

section \<open>Decimal numerals\<close>

definition digit_char :: "nat \<Rightarrow> char" where
  "digit_char d = ''0123456789'' ! d"

text \<open>\<^verbatim>\<open>strconv.Itoa(i)\<close> for the counters of this package, which start at 0 and only
  go up.\<close>

fun strconv_Itoa :: "nat \<Rightarrow> string" where
  "strconv_Itoa n =
     (if n < 10 then [digit_char n] else strconv_Itoa (n div 10) @ [digit_char (n mod 10)])"

declare strconv_Itoa.simps [simp del]

definition digit_value :: "char \<Rightarrow> nat" where
  "digit_value c = the (map_of (zip ''0123456789'' [0, 1, 2, 3, 4, 5, 6, 7, 8, 9]) c)"

definition read_decimal :: "string \<Rightarrow> nat" where
  "read_decimal s = foldl (\<lambda>acc c. acc * 10 + digit_value c) 0 s"

lemma digit_value_digit_char: "d < 10 \<Longrightarrow> digit_value (digit_char d) = d"
proof -
  assume "d < 10"
  then have "d \<in> {0, 1, 2, 3, 4, 5, 6, 7, 8, 9}" by auto
  then show ?thesis
    by (auto simp: digit_value_def digit_char_def)
qed

lemma read_decimal_Itoa: "read_decimal (strconv_Itoa n) = n"
proof (induction n rule: strconv_Itoa.induct)
  case (1 n)
  show ?case
  proof (cases "n < 10")
    case True
    then show ?thesis
      by (subst strconv_Itoa.simps) (simp add: read_decimal_def digit_value_digit_char)
  next
    case False
    with 1 have "read_decimal (strconv_Itoa (n div 10)) = n div 10" by simp
    with False show ?thesis
      by (subst strconv_Itoa.simps) (simp add: read_decimal_def digit_value_digit_char)
  qed
qed

lemma Itoa_inj: "strconv_Itoa a = strconv_Itoa b \<Longrightarrow> a = b"
  by (metis read_decimal_Itoa)

text \<open>
  The scan that Joins, Set and Where run over the trace map:
  \<^verbatim>\<open>for { if _, ok := trace[p+strconv.Itoa(i)]; !ok { break }; i++ }\<close>.
  A map has finitely many keys and the numerals of different numbers differ, so the
  scan ends.
\<close>

function first_free :: "Fields \<Rightarrow> string \<Rightarrow> nat \<Rightarrow> nat" where
  "first_free t p i =
     (if fmlookup t (p @ strconv_Itoa i) \<noteq> None then first_free t p (Suc i) else i)"
  by pat_completeness auto
termination
proof (relation "measure (\<lambda>(t, p, i). card {k \<in> fmdom' t. \<exists>j\<ge>i. k = p @ strconv_Itoa j})")
  show "wf (measure (\<lambda>(t, p, i). card {k \<in> fmdom' t. \<exists>j\<ge>i. k = p @ strconv_Itoa j}))"
    by simp
next
  fix t :: Fields and p :: string and i :: nat
  assume a: "fmlookup t (p @ strconv_Itoa i) \<noteq> None"
  let ?A = "\<lambda>i. {k \<in> fmdom' t. \<exists>j\<ge>i. k = p @ strconv_Itoa j}"
  have fin: "finite (?A i)" by simp
  have mem: "p @ strconv_Itoa i \<in> ?A i"
    using a by (auto simp: fmlookup_dom'_iff)
  have notmem: "p @ strconv_Itoa i \<notin> ?A (Suc i)"
    by (auto dest: Itoa_inj)
  have sub: "?A (Suc i) \<subseteq> ?A i" using Suc_leD by blast
  from mem notmem sub have "?A (Suc i) \<subset> ?A i" by blast
  with fin have "card (?A (Suc i)) < card (?A i)"
    by (rule psubset_card_mono)
  then show "((t, p, Suc i), (t, p, i))
      \<in> measure (\<lambda>(t, p, i). card {k \<in> fmdom' t. \<exists>j\<ge>i. k = p @ strconv_Itoa j})"
    by simp
qed

declare first_free.simps [simp del]

section \<open>The query builder facade: configuration calls\<close>

text \<open>
  A configuration method takes the receiver and the heap and returns the new facade
  (the \<^verbatim>\<open>&Model{...}\<close> it builds) and the heap it leaves. No method assigns to a field
  of an existing \<^verbatim>\<open>Model\<close>, so a \<^verbatim>\<open>*Model\<close> is the record itself. Go names that are
  taken in the logic are shortened: \<^verbatim>\<open>value\<close> is \<open>v\<close>, \<^verbatim>\<open>values\<close> is \<open>vs\<close> or \<open>vals\<close>,
  \<^verbatim>\<open>where\<close> is \<open>whr\<close>, \<^verbatim>\<open>filter\<close> is \<open>fltr\<close>, and the method \<^verbatim>\<open>Not\<close> is \<open>Not_m\<close>.
\<close>

definition Preload :: "(nat \<Rightarrow> nat) \<Rightarrow> string \<Rightarrow> gval list \<Rightarrow> Model \<Rightarrow> world \<Rightarrow> Model \<times> world" where
  "Preload grow column conds m w =
     (case initLogTrace (logTrace m) w of (trace, w1) \<Rightarrow>
        let w2 = map_store trace (''preloadColumn-'' @ column) (Plain (VString column)) w1;
            w3 = (if length conds > 0
                  then map_store trace (''preloadConditions-'' @ column) (Plain (slice_of conds)) w2
                  else w2)
        in case go_append grow (preloads m) \<lparr>field = column, conditions = conds\<rparr> w3 of
             (ps, w4) \<Rightarrow> (\<lparr>db = db m, logTrace = Some trace, preloads = ps\<rparr>, w4))"

text \<open>
  \<^verbatim>\<open>applyPreloads\<close>: while the queue shows an element, its first element is applied to
  the handle and the method recurs on a facade with the rest of the queue. The heap is
  only read.
\<close>

function applyPreloads :: "world \<Rightarrow> Model \<Rightarrow> Model" where
  "applyPreloads w m =
     (if slice_len (preloads m) > 0 then
        applyPreloads w
          \<lparr>db = db m @ [E_Preload (field (slice_index w (preloads m) 0))
                                  (conditions (slice_index w (preloads m) 0))],
           logTrace = logTrace m,
           preloads = slice_from1 (preloads m)\<rparr>
      else \<lparr>db = db m, logTrace = logTrace m, preloads = None\<rparr>)"
  by pat_completeness auto
termination
  by (relation "measure (\<lambda>(w, m). slice_len (preloads m))")
     (auto simp: slice_len_def slice_from1_def split: option.splits)

declare applyPreloads.simps [simp del]

definition Debug :: "Model \<Rightarrow> world \<Rightarrow> Model \<times> world" where
  "Debug m w = (\<lparr>db = db m @ [E_Debug], logTrace = logTrace m, preloads = preloads m\<rparr>, w)"

text \<open>Unscoped writes its entry into \<open>trace\<close> and returns \<^verbatim>\<open>m.logTrace\<close>.\<close>

definition Unscoped :: "Model \<Rightarrow> world \<Rightarrow> Model \<times> world" where
  "Unscoped m w =
     (case initLogTrace (logTrace m) w of (trace, w1) \<Rightarrow>
        let w2 = map_store trace ''unscoped'' (Plain (VBool True)) w1
        in (\<lparr>db = db m @ [E_Unscoped], logTrace = logTrace m, preloads = preloads m\<rparr>, w2))"

definition Model :: "gval \<Rightarrow> Model \<Rightarrow> world \<Rightarrow> Model \<times> world" where
  "Model v m w =
     (case initLogTrace (logTrace m) w of (trace, w1) \<Rightarrow>
        let w2 = map_store trace ''model'' (Pretty v) w1
        in (\<lparr>db = db m @ [E_Model v], logTrace = Some trace, preloads = preloads m\<rparr>, w2))"

definition Select :: "gval \<Rightarrow> gval list \<Rightarrow> Model \<Rightarrow> world \<Rightarrow> Model \<times> world" where
  "Select query args m w =
     (case initLogTrace (logTrace m) w of (trace, w1) \<Rightarrow>
        let w2 = map_store trace ''selectQuery'' (Plain query) w1;
            w3 = (if length args > 0
                  then map_store trace ''selectArgs'' (Pretty (slice_of args)) w2 else w2)
        in (\<lparr>db = db m @ [E_Select query args], logTrace = Some trace, preloads = preloads m\<rparr>, w3))"

definition Table :: "string \<Rightarrow> Model \<Rightarrow> world \<Rightarrow> Model \<times> world" where
  "Table name m w =
     (case initLogTrace (logTrace m) w of (trace, w1) \<Rightarrow>
        let w2 = map_store trace ''tableName'' (Plain (VString name)) w1
        in (\<lparr>db = db m @ [E_Table name], logTrace = Some trace, preloads = preloads m\<rparr>, w2))"

definition Limit :: "int \<Rightarrow> Model \<Rightarrow> world \<Rightarrow> Model \<times> world" where
  "Limit limit m w =
     (case initLogTrace (logTrace m) w of (trace, w1) \<Rightarrow>
        let w2 = map_store trace ''limit'' (Plain (VInt limit)) w1
        in (\<lparr>db = db m @ [E_Limit limit], logTrace = Some trace, preloads = preloads m\<rparr>, w2))"

definition Offset :: "int \<Rightarrow> Model \<Rightarrow> world \<Rightarrow> Model \<times> world" where
  "Offset offset m w =
     (case initLogTrace (logTrace m) w of (trace, w1) \<Rightarrow>
        let w2 = map_store trace ''offset'' (Plain (VInt offset)) w1
        in (\<lparr>db = db m @ [E_Offset offset], logTrace = Some trace, preloads = preloads m\<rparr>, w2))"

definition Order :: "gval \<Rightarrow> Model \<Rightarrow> world \<Rightarrow> Model \<times> world" where
  "Order v m w =
     (case initLogTrace (logTrace m) w of (trace, w1) \<Rightarrow>
        let w2 = map_store trace ''order'' (Pretty v) w1
        in (\<lparr>db = db m @ [E_Order v], logTrace = Some trace, preloads = preloads m\<rparr>, w2))"

text \<open>Joins hands \<^verbatim>\<open>args\<close> to the engine as it is, one value, where the other methods
  write \<^verbatim>\<open>args...\<close>.\<close>

definition Joins :: "string \<Rightarrow> gval list \<Rightarrow> Model \<Rightarrow> world \<Rightarrow> Model \<times> world" where
  "Joins query args m w =
     (case initLogTrace (logTrace m) w of (trace, w1) \<Rightarrow>
        let i = first_free (maps w1 ! trace) ''joinsQuery'' 0;
            w2 = map_store trace (''joinsQuery'' @ strconv_Itoa i) (Plain (VString query)) w1;
            w3 = (if length args > 0
                  then map_store trace (''joinsArgs'' @ strconv_Itoa i) (Pretty (slice_of args)) w2
                  else w2)
        in (\<lparr>db = db m @ [E_Joins query [slice_of args]], logTrace = Some trace,
             preloads = preloads m\<rparr>, w3))"

definition Set :: "string \<Rightarrow> gval \<Rightarrow> Model \<Rightarrow> world \<Rightarrow> Model \<times> world" where
  "Set name v m w =
     (case initLogTrace (logTrace m) w of (trace, w1) \<Rightarrow>
        let i = first_free (maps w1 ! trace) ''setName'' 0;
            w2 = map_store trace (''setName'' @ strconv_Itoa i) (Plain (VString name)) w1;
            w3 = map_store trace (''setValue'' @ strconv_Itoa i) (Plain v) w2
        in (\<lparr>db = db m @ [E_Set name v], logTrace = Some trace, preloads = preloads m\<rparr>, w3))"

definition IgnoreConflicts :: "Model \<Rightarrow> world \<Rightarrow> Model \<times> world" where
  "IgnoreConflicts m w =
     (case initLogTrace (logTrace m) w of (trace, w1) \<Rightarrow>
        let w2 = map_store trace ''ignoreConflicts'' (Plain (VBool True)) w1
        in (\<lparr>db = db m @ [E_Clauses_OnConflict_DoNothing], logTrace = Some trace,
             preloads = preloads m\<rparr>, w2))"

definition Omit :: "string list \<Rightarrow> Model \<Rightarrow> world \<Rightarrow> Model \<times> world" where
  "Omit vs m w =
     (case initLogTrace (logTrace m) w of (trace, w1) \<Rightarrow>
        let w2 = map_store trace ''omit'' (Plain (strings_of vs)) w1
        in (\<lparr>db = db m @ [E_Omit vs], logTrace = Some trace, preloads = preloads m\<rparr>, w2))"

definition Where :: "gval \<Rightarrow> gval list \<Rightarrow> Model \<Rightarrow> world \<Rightarrow> Model \<times> world" where
  "Where query args m w =
     (case initLogTrace (logTrace m) w of (trace, w1) \<Rightarrow>
        let i = first_free (maps w1 ! trace) ''whereQuery'' 0;
            w2 = map_store trace (''whereQuery'' @ strconv_Itoa i) (Pretty query) w1;
            w3 = (if length args > 0
                  then map_store trace (''whereArgs'' @ strconv_Itoa i) (Pretty (slice_of args)) w2
                  else w2)
        in (\<lparr>db = db m @ [E_Where query args], logTrace = Some trace, preloads = preloads m\<rparr>, w3))"

definition Not_m :: "gval \<Rightarrow> gval list \<Rightarrow> Model \<Rightarrow> world \<Rightarrow> Model \<times> world" where
  "Not_m query args m w =
     (case initLogTrace (logTrace m) w of (trace, w1) \<Rightarrow>
        let w2 = map_store trace ''notQuery'' (Pretty query) w1;
            w3 = (if length args > 0
                  then map_store trace ''notArgs'' (Plain (slice_of args)) w2 else w2)
        in (\<lparr>db = db m @ [E_Not query args], logTrace = Some trace, preloads = preloads m\<rparr>, w3))"

definition Group :: "string \<Rightarrow> Model \<Rightarrow> world \<Rightarrow> Model \<times> world" where
  "Group name m w =
     (case initLogTrace (logTrace m) w of (trace, w1) \<Rightarrow>
        let w2 = map_store trace ''groupName'' (Plain (VString name)) w1
        in (\<lparr>db = db m @ [E_Group name], logTrace = Some trace, preloads = preloads m\<rparr>, w2))"

definition Having :: "gval \<Rightarrow> gval list \<Rightarrow> Model \<Rightarrow> world \<Rightarrow> Model \<times> world" where
  "Having query args m w =
     (case initLogTrace (logTrace m) w of (trace, w1) \<Rightarrow>
        let w2 = map_store trace ''havingQuery'' (Plain query) w1;
            w3 = (if length args > 0
                  then map_store trace ''havingArgs'' (Plain (slice_of args)) w2 else w2)
        in (\<lparr>db = db m @ [E_Having query args], logTrace = Some trace, preloads = preloads m\<rparr>, w3))"

definition raw :: "string \<Rightarrow> gval list \<Rightarrow> Model \<Rightarrow> world \<Rightarrow> Model \<times> world" where
  "raw sql vs m w =
     (case initLogTrace (logTrace m) w of (trace, w1) \<Rightarrow>
        let w2 = map_store trace ''rawSql'' (Plain (VString sql)) w1;
            w3 = (if length vs > 0
                  then map_store trace ''rawValues'' (Plain (slice_of vs)) w2 else w2)
        in (\<lparr>db = db m @ [E_Raw sql vs], logTrace = Some trace, preloads = preloads m\<rparr>, w3))"

section \<open>The query builder facade: terminal operations\<close>

text \<open>
  A terminal operation takes the answers of the engine and the call stack that
  \<^verbatim>\<open>GetFrames\<close> would see, besides its Go parameters, the receiver and the heap. It
  returns its Go result and the heap, where \<open>issued\<close> has the statement it ran and
  \<open>logged\<close> what it wrote to the log.
\<close>

definition Pluck :: "engine \<Rightarrow> Frame list \<Rightarrow> string \<Rightarrow> gval \<Rightarrow> Model \<Rightarrow> world \<Rightarrow> go_error option \<times> world" where
  "Pluck eng stack column v m w =
     (let stmt = db (applyPreloads w m) @ [E_Pluck column v];
          w1 = run_stmt stmt w;
          err = result eng stmt
      in if err \<noteq> None then
           (Some ErrInternal,
            log_Error err
              (trace_fields w1 m ++\<^sub>f fmap_of_list
                 [(''typeOfPluckingValue'', TypeName v),
                  (''pluckColumnName'', Plain (VString column)),
                  (''trace'', Frames (GetFrames stack))])
              ''can't pluck object from the database'' w1)
         else (None, w1))"

definition First :: "engine \<Rightarrow> Frame list \<Rightarrow> gval \<Rightarrow> gval list \<Rightarrow> Model \<Rightarrow> world \<Rightarrow> go_error option \<times> world" where
  "First eng stack out whr m w =
     (let stmt = db (applyPreloads w m) @ [E_First out whr];
          w1 = run_stmt stmt w;
          err = result eng stmt
      in if errors_Is err ErrRecordNotFound then (Some ErrNotFound, w1)
         else if err \<noteq> None then
           (let logFields = fmap_of_list
                  [(''trace'', Frames (GetFrames stack)), (''firstOut'', Pretty out)];
                logFields = (if length whr > 0
                             then fmupd ''firstWhere'' (Pretty (slice_of whr)) logFields
                             else logFields)
            in (Some ErrInternal,
                log_Error err (trace_fields w1 m ++\<^sub>f logFields)
                  ''can't get first object from the database'' w1))
         else (None, w1))"

definition Last :: "engine \<Rightarrow> Frame list \<Rightarrow> gval \<Rightarrow> gval list \<Rightarrow> Model \<Rightarrow> world \<Rightarrow> go_error option \<times> world" where
  "Last eng stack out whr m w =
     (let stmt = db (applyPreloads w m) @ [E_Last out whr];
          w1 = run_stmt stmt w;
          err = result eng stmt
      in if errors_Is err ErrRecordNotFound then (Some ErrNotFound, w1)
         else if err \<noteq> None then
           (let logFields = fmap_of_list
                  [(''trace'', Frames (GetFrames stack)), (''lastOut'', Pretty out)];
                logFields = (if length whr > 0
                             then fmupd ''lastWhere'' (Pretty (slice_of whr)) logFields
                             else logFields)
            in (Some ErrInternal,
                log_Error err (trace_fields w1 m ++\<^sub>f logFields)
                  ''can't get last object from the database'' w1))
         else (None, w1))"

definition Take :: "engine \<Rightarrow> Frame list \<Rightarrow> gval \<Rightarrow> gval list \<Rightarrow> Model \<Rightarrow> world \<Rightarrow> go_error option \<times> world" where
  "Take eng stack dest conds m w =
     (let stmt = db (applyPreloads w m) @ [E_Take dest conds];
          w1 = run_stmt stmt w;
          err = result eng stmt
      in if errors_Is err ErrRecordNotFound then (Some ErrNotFound, w1)
         else if err \<noteq> None then
           (let logFields = fmap_of_list
                  [(''takeWhereCondition'', PlusV (slice_of conds)),
                   (''takeDest'', Pretty dest), (''trace'', Frames (GetFrames stack))];
                logFields = (if length conds > 0
                             then fmupd ''takeConds'' (Pretty (slice_of conds)) logFields
                             else logFields)
            in (Some ErrInternal,
                log_Error err (trace_fields w1 m ++\<^sub>f logFields)
                  ''can't take object from the database'' w1))
         else (None, w1))"

definition Find :: "engine \<Rightarrow> Frame list \<Rightarrow> gval \<Rightarrow> gval list \<Rightarrow> Model \<Rightarrow> world \<Rightarrow> go_error option \<times> world" where
  "Find eng stack out whr m w =
     (let stmt = db (applyPreloads w m) @ [E_Find out whr];
          w1 = run_stmt stmt w;
          err = result eng stmt
      in if err \<noteq> None then
           (let logFields = fmap_of_list
                  [(''findOut'', Pretty out), (''trace'', Frames (GetFrames stack))];
                logFields = (if length whr > 0
                             then fmupd ''findWhere'' (Pretty (slice_of whr)) logFields
                             else logFields)
            in (Some ErrInternal,
                log_Error err (trace_fields w1 m ++\<^sub>f logFields)
                  ''can't find from the database'' w1))
         else (None, w1))"

definition Scan :: "engine \<Rightarrow> Frame list \<Rightarrow> gval \<Rightarrow> Model \<Rightarrow> world \<Rightarrow> go_error option \<times> world" where
  "Scan eng stack dest m w =
     (let stmt = db (applyPreloads w m) @ [E_Scan dest];
          w1 = run_stmt stmt w;
          err = result eng stmt
      in if err \<noteq> None then
           (Some ErrInternal,
            log_Error err
              (trace_fields w1 m ++\<^sub>f fmap_of_list
                 [(''scanDest'', Pretty dest), (''trace'', Frames (GetFrames stack))])
              ''can't scan from the database'' w1)
         else (None, w1))"

definition Create :: "engine \<Rightarrow> Frame list \<Rightarrow> gval \<Rightarrow> Model \<Rightarrow> world \<Rightarrow> go_error option \<times> world" where
  "Create eng stack v m w =
     (let stmt = db (applyPreloads w m) @ [E_Create v];
          w1 = run_stmt stmt w;
          err = result eng stmt
      in if err \<noteq> None then
           (Some ErrInternal,
            log_Error err
              (trace_fields w1 m ++\<^sub>f fmap_of_list
                 [(''createValue'', Pretty v), (''trace'', Frames (GetFrames stack))])
              ''can't create value in database'' w1)
         else (None, w1))"

definition Save :: "engine \<Rightarrow> Frame list \<Rightarrow> gval \<Rightarrow> Model \<Rightarrow> world \<Rightarrow> go_error option \<times> world" where
  "Save eng stack v m w =
     (let stmt = db (applyPreloads w m) @ [E_Save v];
          w1 = run_stmt stmt w;
          err = result eng stmt
      in if err \<noteq> None then
           (Some ErrInternal,
            log_Error err
              (trace_fields w1 m ++\<^sub>f fmap_of_list
                 [(''saveValue'', Pretty v), (''trace'', Frames (GetFrames stack))])
              ''can't save object in a database'' w1)
         else (None, w1))"

definition Updates :: "engine \<Rightarrow> Frame list \<Rightarrow> gval \<Rightarrow> Model \<Rightarrow> world \<Rightarrow> go_error option \<times> world" where
  "Updates eng stack attrs m w =
     (let stmt = db (applyPreloads w m) @ [E_Updates attrs];
          w1 = run_stmt stmt w;
          err = result eng stmt
      in if err \<noteq> None then
           (Some ErrInternal,
            log_Error err
              (trace_fields w1 m ++\<^sub>f fmap_of_list
                 [(''updateAttrs'', Pretty attrs), (''trace'', Frames (GetFrames stack))])
              ''can't update object in database'' w1)
         else (None, w1))"

definition Delete :: "engine \<Rightarrow> Frame list \<Rightarrow> gval \<Rightarrow> gval list \<Rightarrow> Model \<Rightarrow> world \<Rightarrow> go_error option \<times> world" where
  "Delete eng stack v whr m w =
     (let stmt = db (applyPreloads w m) @ [E_Delete v whr];
          w1 = run_stmt stmt w;
          err = result eng stmt
      in if err \<noteq> None then
           (let logFields = fmap_of_list
                  [(''deleteValue'', Pretty v), (''trace'', Frames (GetFrames stack))];
                logFields = (if length whr > 0
                             then fmupd ''deleteWhere'' (Pretty (slice_of whr)) logFields
                             else logFields)
            in (Some ErrInternal,
                log_Error err (trace_fields w1 m ++\<^sub>f logFields)
                  ''can't delete object from DB'' w1))
         else (None, w1))"

text \<open>Count runs on \<^verbatim>\<open>m.db\<close>.\<close>

definition Count :: "engine \<Rightarrow> Frame list \<Rightarrow> Model \<Rightarrow> world \<Rightarrow> (64 word \<times> go_error option) \<times> world" where
  "Count eng stack m w =
     (let stmt = db m @ [E_Count];
          w1 = run_stmt stmt w;
          c = counted eng stmt;
          err = result eng stmt
      in if err \<noteq> None then
           ((0, Some ErrInternal),
            log_Error err
              (trace_fields w1 m ++\<^sub>f fmap_of_list [(''trace'', Frames (GetFrames stack))])
              ''can't count objects in DB'' w1)
         else ((c, None), w1))"

definition exec :: "engine \<Rightarrow> Frame list \<Rightarrow> string \<Rightarrow> gval list \<Rightarrow> Model \<Rightarrow> world \<Rightarrow> go_error option \<times> world" where
  "exec eng stack sql vs m w =
     (let stmt = db (applyPreloads w m) @ [E_Exec sql vs];
          w1 = run_stmt stmt w;
          err = result eng stmt
      in if err \<noteq> None then
           (Some ErrInternal,
            log_Error err
              (trace_fields w1 m ++\<^sub>f fmap_of_list
                 [(''trace'', Frames (GetFrames stack)), (''execSql'', Plain (VString sql)),
                  (''execValues'', Plain (slice_of vs))])
              ''can't exec sql in DB'' w1)
         else (None, w1))"

text \<open>
  BatchFind gives the engine a function that ignores the engine's cursor and calls \<open>fc\<close>
  with the receiver \<open>m\<close>. What a run of \<open>fc\<close> itself does to the heap and the log is
  the caller's code and is not followed here: \<open>fc\<close> yields its error only.
\<close>

definition BatchFind :: "engine \<Rightarrow> Frame list \<Rightarrow> gval \<Rightarrow> int \<Rightarrow> (Model \<Rightarrow> int \<Rightarrow> go_error option)
    \<Rightarrow> Model \<Rightarrow> world \<Rightarrow> go_error option \<times> world" where
  "BatchFind eng stack dest batchSize fc m w =
     (let stmt = db (applyPreloads w m) @ [E_FindInBatches dest batchSize];
          w1 = run_stmt stmt w;
          err = batches eng stmt (\<lambda>tx batch. fc m batch)
      in if err \<noteq> None then
           (let logFields = fmap_of_list
                  [(''batchFindDest'', Pretty dest), (''batchSize'', Plain (VInt batchSize)),
                   (''trace'', Frames (GetFrames stack))]
            in (Some ErrInternal,
                log_Error err (trace_fields w1 m ++\<^sub>f logFields)
                  ''can't find from the database'' w1))
         else (None, w1))"

text \<open>
  Package reflect on the values above. \<^verbatim>\<open>reflect.TypeOf\<close> gives the dynamic type, and
  none for the nil interface; \<^verbatim>\<open>reflect.Zero\<close> gives the zero value of a type;
  \<^verbatim>\<open>reflect.DeepEqual\<close> compares pointers by what they point to, slices by nil-ness
  and elements, structs field by field, which on these values is equality.
\<close>

fun reflect_TypeOf :: "gval \<Rightarrow> gtype option" where
  "reflect_TypeOf Nil = None"
| "reflect_TypeOf (VBool b) = Some TBool"
| "reflect_TypeOf (VInt i) = Some TInt"
| "reflect_TypeOf (VString s) = Some TString"
| "reflect_TypeOf (VPtr t p) = Some (TPtr t)"
| "reflect_TypeOf (VSlice t xs) = Some (TSlice t)"
| "reflect_TypeOf (VStruct n fs) = Some (TStruct n (map (\<lambda>(k, t, v). (k, t)) fs))"

fun reflect_Zero :: "gtype \<Rightarrow> gval" where
  "reflect_Zero TBool = VBool False"
| "reflect_Zero TInt = VInt 0"
| "reflect_Zero TString = VString []"
| "reflect_Zero TIface = Nil"
| "reflect_Zero (TPtr t) = VPtr t None"
| "reflect_Zero (TSlice t) = VSlice t None"
| "reflect_Zero (TStruct n fs) = VStruct n (map (\<lambda>(k, t). (k, t, reflect_Zero t)) fs)"

definition reflect_DeepEqual :: "gval \<Rightarrow> gval \<Rightarrow> bool" where
  "reflect_DeepEqual x y = (x = y)"

text \<open>A Go call either returns or panics.\<close>

datatype 'a go_result = Panics string | Returns 'a

text \<open>UpdateByFilter: \<^verbatim>\<open>reflect.Zero\<close> panics when it is given the nil type, which is
  what \<^verbatim>\<open>reflect.TypeOf\<close> returns for a nil filter. The parameter
  \<^verbatim>\<open>filter\<close> is \<open>fltr\<close> here.\<close>

definition UpdateByFilter :: "engine \<Rightarrow> Frame list \<Rightarrow> gval \<Rightarrow> gval \<Rightarrow> Model \<Rightarrow> world
    \<Rightarrow> (go_error option \<times> world) go_result" where
  "UpdateByFilter eng stack fltr vals m w =
     (case reflect_TypeOf fltr of
        None \<Rightarrow> Panics ''reflect: Zero(nil)''
      | Some ty \<Rightarrow>
          if reflect_DeepEqual fltr (reflect_Zero ty) then
            Returns (Some ErrInternal,
                     log_Error None fmempty
                       ''queryBuilder.UpdateByFilter called for empty filter'' w)
          else
            (let stmt = db (applyPreloads w m) @ [E_Model fltr, E_Where fltr [], E_Updates vals];
                 w1 = run_stmt stmt w;
                 err = result eng stmt
             in if err \<noteq> None then
                  Returns (Some ErrInternal,
                           log_Error err
                             (trace_fields w1 m ++\<^sub>f fmap_of_list
                                [(''UpdateByFilterFilter'', Pretty fltr),
                                 (''UpdateByFilterValues'', Pretty vals),
                                 (''trace'', Frames (GetFrames stack))])
                             ''can't update object in database'' w1)
                else Returns (None, w1)))"

section \<open>Calls as data\<close>

text \<open>A configuration call and a terminal call as values, with the functions that carry
  them out by the methods above, so that a statement can range over all of them and
  over chains of them.\<close>

datatype config =
    C_Preload string "gval list"
  | C_Debug
  | C_Unscoped
  | C_IgnoreConflicts
  | C_Model gval
  | C_Select gval "gval list"
  | C_Table string
  | C_Limit int
  | C_Offset int
  | C_Order gval
  | C_Set string gval
  | C_Omit "string list"
  | C_Where gval "gval list"
  | C_Not gval "gval list"
  | C_Group string
  | C_Having gval "gval list"
  | C_Joins string "gval list"
  | C_raw string "gval list"

fun config_call :: "(nat \<Rightarrow> nat) \<Rightarrow> config \<Rightarrow> Model \<Rightarrow> world \<Rightarrow> Model \<times> world" where
  "config_call grow (C_Preload column conds) m w = Preload grow column conds m w"
| "config_call grow C_Debug m w = Debug m w"
| "config_call grow C_Unscoped m w = Unscoped m w"
| "config_call grow C_IgnoreConflicts m w = IgnoreConflicts m w"
| "config_call grow (C_Model v) m w = Model v m w"
| "config_call grow (C_Select query args) m w = Select query args m w"
| "config_call grow (C_Table name) m w = Table name m w"
| "config_call grow (C_Limit limit) m w = Limit limit m w"
| "config_call grow (C_Offset offset) m w = Offset offset m w"
| "config_call grow (C_Order v) m w = Order v m w"
| "config_call grow (C_Set name v) m w = Set name v m w"
| "config_call grow (C_Omit vs) m w = Omit vs m w"
| "config_call grow (C_Where query args) m w = Where query args m w"
| "config_call grow (C_Not query args) m w = Not_m query args m w"
| "config_call grow (C_Group name) m w = Group name m w"
| "config_call grow (C_Having query args) m w = Having query args m w"
| "config_call grow (C_Joins query args) m w = Joins query args m w"
| "config_call grow (C_raw sql vs) m w = raw sql vs m w"

text \<open>A chain \<^verbatim>\<open>m.c1(...).c2(...)...\<close>: each call is made on the facade the call
  before it returned.\<close>

fun chain :: "(nat \<Rightarrow> nat) \<Rightarrow> config list \<Rightarrow> Model \<Rightarrow> world \<Rightarrow> Model \<times> world" where
  "chain grow [] m w = (m, w)"
| "chain grow (c # cs) m w = (case config_call grow c m w of (m1, w1) \<Rightarrow> chain grow cs m1 w1)"

datatype terminal =
    T_Pluck string gval
  | T_First gval "gval list"
  | T_Last gval "gval list"
  | T_Take gval "gval list"
  | T_Find gval "gval list"
  | T_Scan gval
  | T_Create gval
  | T_Save gval
  | T_Updates gval
  | T_Delete gval "gval list"
  | T_Count
  | T_exec string "gval list"
  | T_BatchFind gval int "Model \<Rightarrow> int \<Rightarrow> go_error option"
  | T_UpdateByFilter gval gval

text \<open>The error a terminal call returns and the heap it leaves; the number that Count
  returns besides is dropped here.\<close>

fun terminal_call :: "engine \<Rightarrow> Frame list \<Rightarrow> terminal \<Rightarrow> Model \<Rightarrow> world
    \<Rightarrow> (go_error option \<times> world) go_result" where
  "terminal_call eng stack (T_Pluck column v) m w = Returns (Pluck eng stack column v m w)"
| "terminal_call eng stack (T_First out whr) m w = Returns (First eng stack out whr m w)"
| "terminal_call eng stack (T_Last out whr) m w = Returns (Last eng stack out whr m w)"
| "terminal_call eng stack (T_Take dest conds) m w = Returns (Take eng stack dest conds m w)"
| "terminal_call eng stack (T_Find out whr) m w = Returns (Find eng stack out whr m w)"
| "terminal_call eng stack (T_Scan dest) m w = Returns (Scan eng stack dest m w)"
| "terminal_call eng stack (T_Create v) m w = Returns (Create eng stack v m w)"
| "terminal_call eng stack (T_Save v) m w = Returns (Save eng stack v m w)"
| "terminal_call eng stack (T_Updates attrs) m w = Returns (Updates eng stack attrs m w)"
| "terminal_call eng stack (T_Delete v whr) m w = Returns (Delete eng stack v whr m w)"
| "terminal_call eng stack T_Count m w =
     (case Count eng stack m w of ((c, err), w1) \<Rightarrow> Returns (err, w1))"
| "terminal_call eng stack (T_exec sql vs) m w = Returns (exec eng stack sql vs m w)"
| "terminal_call eng stack (T_BatchFind dest batchSize fc) m w =
     Returns (BatchFind eng stack dest batchSize fc m w)"
| "terminal_call eng stack (T_UpdateByFilter fltr vals) m w =
     UpdateByFilter eng stack fltr vals m w"

text \<open>The engine operation of a terminal call: what it appends to the handle.\<close>

fun engine_op :: "terminal \<Rightarrow> engine_call list" where
  "engine_op (T_Pluck column v) = [E_Pluck column v]"
| "engine_op (T_First out whr) = [E_First out whr]"
| "engine_op (T_Last out whr) = [E_Last out whr]"
| "engine_op (T_Take dest conds) = [E_Take dest conds]"
| "engine_op (T_Find out whr) = [E_Find out whr]"
| "engine_op (T_Scan dest) = [E_Scan dest]"
| "engine_op (T_Create v) = [E_Create v]"
| "engine_op (T_Save v) = [E_Save v]"
| "engine_op (T_Updates attrs) = [E_Updates attrs]"
| "engine_op (T_Delete v whr) = [E_Delete v whr]"
| "engine_op T_Count = [E_Count]"
| "engine_op (T_exec sql vs) = [E_Exec sql vs]"
| "engine_op (T_BatchFind dest batchSize fc) = [E_FindInBatches dest batchSize]"
| "engine_op (T_UpdateByFilter fltr vals) = [E_Model fltr, E_Where fltr [], E_Updates vals]"

text \<open>The answer of the engine to a statement that a terminal call runs.\<close>

fun engine_answer :: "engine \<Rightarrow> terminal \<Rightarrow> Model \<Rightarrow> gormDB \<Rightarrow> go_error option" where
  "engine_answer eng (T_BatchFind dest batchSize fc) m stmt =
     batches eng stmt (\<lambda>tx batch. fc m batch)"
| "engine_answer eng t m stmt = result eng stmt"

text \<open>The guard of UpdateByFilter lets a filter pass when it has a type and differs from
  the zero value of that type; no other terminal call has a guard.\<close>

fun passes_guard :: "terminal \<Rightarrow> bool" where
  "passes_guard (T_UpdateByFilter fltr vals) =
     (case reflect_TypeOf fltr of None \<Rightarrow> False | Some ty \<Rightarrow> fltr \<noteq> reflect_Zero ty)"
| "passes_guard t = True"

text \<open>The terminal calls whose code tests the error for record-not-found.\<close>

fun singular_fetch :: "terminal \<Rightarrow> bool" where
  "singular_fetch (T_First out whr) = True"
| "singular_fetch (T_Last out whr) = True"
| "singular_fetch (T_Take dest conds) = True"
| "singular_fetch t = False"

section \<open>Well-formed heaps\<close>

text \<open>What Go guarantees of the references a facade holds: the trace map is allocated,
  and the window and the capacity of the preload slice lie inside its backing array.\<close>

definition slice_ok :: "world \<Rightarrow> slice option \<Rightarrow> bool" where
  "slice_ok w s =
     (case s of None \<Rightarrow> True
      | Some sl \<Rightarrow> arr sl < length (arrays w) \<and> len sl \<le> cap sl
                   \<and> off sl + cap sl \<le> length (arrays w ! arr sl))"

definition trace_ok :: "world \<Rightarrow> nat option \<Rightarrow> bool" where
  "trace_ok w t = (case t of None \<Rightarrow> True | Some a \<Rightarrow> a < length (maps w))"

definition wf_facade :: "world \<Rightarrow> Model \<Rightarrow> bool" where
  "wf_facade w m = (slice_ok w (preloads m) \<and> trace_ok w (logTrace m))"

text \<open>The preload queue of a facade, first directive first, and the engine call that
  applies one directive.\<close>

definition pending :: "world \<Rightarrow> Model \<Rightarrow> preload list" where
  "pending w m = slice_elems w (preloads m)"

definition preload_call :: "preload \<Rightarrow> engine_call" where
  "preload_call p = E_Preload (field p) (conditions p)"

section \<open>Properties of the call-trace collector\<close>

definition in_project :: "Frame \<Rightarrow> bool" where
  "in_project f = strings_Contains (Function f) projectName"

lemma not_in_project_zero_Frame: "\<not> in_project zero_Frame"
  by (simp add: in_project_def zero_Frame_def projectName_def)

lemma Frame_copy: "\<lparr>Function = Function f, File = File f, Line = Line f\<rparr> = f"
  by (cases f) simp

lemma GetFrames_loop_step:
  "GetFrames_loop True (f # fs) res =
     (if in_project f then GetFrames_loop (fs \<noteq> []) fs (res @ [f]) else res)"
  by (subst GetFrames_loop.simps) (simp add: in_project_def Frame_copy)

lemma GetFrames_loop_stop: "GetFrames_loop False fs res = res"
  by (subst GetFrames_loop.simps) simp

lemma GetFrames_loop_takeWhile:
  "GetFrames_loop True frames res = res @ takeWhile in_project frames"
proof (induction frames arbitrary: res)
  case Nil
  have "GetFrames_loop True [] res = res"
    using not_in_project_zero_Frame
    by (subst GetFrames_loop.simps) (simp add: in_project_def)
  then show ?case by simp
next
  case (Cons f fs)
  show ?case
  proof (cases fs)
    case Nil
    then show ?thesis
      by (simp add: GetFrames_loop_step GetFrames_loop_stop)
  next
    case (Cons g gs)
    then have "GetFrames_loop (fs \<noteq> []) fs (res @ [f]) = (res @ [f]) @ takeWhile in_project fs"
      using Cons.IH [of "res @ [f]"] by simp
    then show ?thesis
      by (simp add: GetFrames_loop_step)
  qed
qed

lemma GetFrames_takeWhile:
  "GetFrames stack = takeWhile in_project (take 99 (drop 2 stack))"
  by (simp add: GetFrames_def runtime_Callers_def Let_def GetFrames_loop_takeWhile)

text \<open>
  The collector as the specification words it: the walk starts two frames above the
  collector, so that the collector's own frame and the frame of its caller are skipped,
  and stops at the first frame outside the project. With the collector at position 1 of
  the stack its caller is at position 2 and the walk would start at position 3.
\<close>

definition collect_spec :: "Frame list \<Rightarrow> Frame list" where
  "collect_spec stack = takeWhile in_project (drop 3 stack)"

definition stack_example :: "Frame list" where
  "stack_example =
     [\<lparr>Function = ''runtime.Callers'', File = ''runtime/extern.go'', Line = 331\<rparr>,
      \<lparr>Function = ''myProject/common.GetFrames'', File = ''common/trace.go'', Line = 28\<rparr>,
      \<lparr>Function = ''myProject/model.Load'', File = ''model/load.go'', Line = 12\<rparr>,
      \<lparr>Function = ''myProject/api.Handler'', File = ''api/handler.go'', Line = 40\<rparr>,
      \<lparr>Function = ''net/http.serve'', File = ''net/http/server.go'', Line = 2000\<rparr>]"

text \<open>
  Claim C9, as stated, fails: the frame of the function that called GetFrames is the first
  frame of the result, so only the frames of runtime.Callers and of GetFrames are skipped.
\<close>

theorem GetFrames_start_counterexample:
  "GetFrames stack_example =
     [\<lparr>Function = ''myProject/model.Load'', File = ''model/load.go'', Line = 12\<rparr>,
      \<lparr>Function = ''myProject/api.Handler'', File = ''api/handler.go'', Line = 40\<rparr>]
   \<and> collect_spec stack_example =
     [\<lparr>Function = ''myProject/api.Handler'', File = ''api/handler.go'', Line = 40\<rparr>]
   \<and> GetFrames stack_example \<noteq> collect_spec stack_example"
  by (simp add: GetFrames_takeWhile collect_spec_def stack_example_def in_project_def
      projectName_def)

text \<open>The buffer of 99 program counters bounds the walk: of 100 project frames above
  GetFrames only 99 are returned.\<close>

lemma GetFrames_cap_example:
  "in_project f \<Longrightarrow> length (GetFrames (c # g # replicate 100 f)) = 99"
  by (simp add: GetFrames_takeWhile takeWhile_replicate)

text \<open>
  Claim C9, amended: the collector skips the frame of runtime.Callers and its own frame,
  starts at the frame of its immediate caller, looks at no more than 99 frames, and
  returns the longest run of them, from the first on, whose function names contain the
  project name; it stops at, and leaves out, the first frame whose name does not.
\<close>

theorem GetFrames_collects_project_prefix:
  "GetFrames stack =
     takeWhile (\<lambda>f. strings_Contains (Function f) projectName) (take 99 (drop 2 stack))"
proof -
  have "in_project = (\<lambda>f. strings_Contains (Function f) projectName)"
    by (rule ext) (simp add: in_project_def)
  then show ?thesis
    using GetFrames_takeWhile [of stack] by simp
qed

section \<open>Properties of the transaction envelope\<close>

text \<open>
  Claim C7: for every error \<open>err\<close> handed in, nil included, and every outcome of the
  engine's rollback, RollbackWithError returns \<open>err\<close> itself; a failure of the rollback
  adds one entry to the log and is not returned.
\<close>

theorem RollbackWithError_returns_original:
  "fst (RollbackWithError eng err m w) = err
   \<and> logged (snd (RollbackWithError eng err m w)) =
       logged w @
       (case result eng (db m @ [E_Rollback]) of
          None \<Rightarrow> []
        | Some e \<Rightarrow> [\<lparr>level = ErrorLevel, err_field = Some e, data = fmempty,
                      message = ''can't rollback transaction''\<rparr>])"
  by (simp add: RollbackWithError_def Let_def log_Error_def run_stmt_def split: option.split)

text \<open>
  Claim C8: RollBack returns nothing; it leaves the log as it is when the engine's
  rollback succeeds or fails with the transaction-already-finished error (as
  \<^verbatim>\<open>errors.Is\<close> recognises it), and adds exactly one error entry when the rollback fails
  with any other error.
\<close>

theorem RollBack_logs_only_real_failures:
  "logged (RollBack eng m w) =
     logged w @
     (if result eng (db m @ [E_Rollback]) = None
         \<or> errors_Is (result eng (db m @ [E_Rollback])) ErrTxDone
      then []
      else [\<lparr>level = ErrorLevel, err_field = result eng (db m @ [E_Rollback]),
             data = fmempty, message = ''can't rollback transaction''\<rparr>])"
  by (simp add: RollBack_def Let_def log_Error_def run_stmt_def)

section \<open>Example inputs\<close>

text \<open>Inputs for the examples: the facade that New returns, an empty heap, an engine
  without errors and one whose every statement fails with record-not-found.\<close>

definition fresh_facade :: Model where
  "fresh_facade = \<lparr>db = [], logTrace = None, preloads = None\<rparr>"

definition empty_world :: world where
  "empty_world = \<lparr>maps = [], arrays = [], logged = [], issued = []\<rparr>"

definition engine_fine :: engine where
  "engine_fine = \<lparr>result = (\<lambda>stmt. None), counted = (\<lambda>stmt. 7), batches = (\<lambda>stmt f. None)\<rparr>"

definition engine_not_found :: engine where
  "engine_not_found = \<lparr>result = (\<lambda>stmt. Some ErrRecordNotFound), counted = (\<lambda>stmt. 0),
     batches = (\<lambda>stmt f. Some ErrRecordNotFound)\<rparr>"

section \<open>Properties of the preload queue\<close>

lemma applyPreloads_preloads: "preloads (applyPreloads w m) = None"
  by (induction w m rule: applyPreloads.induct) (subst applyPreloads.simps, simp)

lemma applyPreloads_logTrace: "logTrace (applyPreloads w m) = logTrace m"
  by (induction w m rule: applyPreloads.induct) (subst applyPreloads.simps, simp)

lemma applyPreloads_empty:
  "slice_len (preloads m) = 0 \<Longrightarrow>
     applyPreloads w m = \<lparr>db = db m, logTrace = logTrace m, preloads = None\<rparr>"
  by (subst applyPreloads.simps) simp

lemma slice_elems_step:
  assumes "slice_ok w s" and "slice_len s > 0"
  shows "slice_elems w s = slice_index w s 0 # slice_elems w (slice_from1 s)"
    and "slice_ok w (slice_from1 s)"
proof -
  from assms(2) obtain sl where s: "s = Some sl" and l: "len sl > 0"
    by (cases s) (auto simp: slice_len_def)
  from assms(1) s have b: "arr sl < length (arrays w)" "len sl \<le> cap sl"
      "off sl + cap sl \<le> length (arrays w ! arr sl)"
    by (auto simp: slice_ok_def)
  let ?a = "arrays w ! arr sl"
  from b l have o: "off sl < length ?a" by linarith
  have "take (len sl) (drop (off sl) ?a) = ?a ! off sl # take (len sl - 1) (drop (Suc (off sl)) ?a)"
    using l o by (cases "len sl") (simp_all add: Cons_nth_drop_Suc [symmetric])
  then show "slice_elems w s = slice_index w s 0 # slice_elems w (slice_from1 s)"
    using s by (simp add: slice_elems_def slice_index_def slice_from1_def)
  show "slice_ok w (slice_from1 s)"
    using s b l by (simp add: slice_ok_def slice_from1_def)
qed

lemma applyPreloads_db:
  "slice_ok w (preloads m) \<Longrightarrow>
     db (applyPreloads w m) = db m @ map preload_call (pending w m)"
proof (induction w m rule: applyPreloads.induct)
  case (1 w m)
  show ?case
  proof (cases "slice_len (preloads m) > 0")
    case True
    note st = slice_elems_step [OF "1.prems" True]
    let ?m' = "\<lparr>db = db m @ [E_Preload (field (slice_index w (preloads m) 0))
                                  (conditions (slice_index w (preloads m) 0))],
           logTrace = logTrace m,
           preloads = slice_from1 (preloads m)\<rparr>"
    have "db (applyPreloads w ?m') = db ?m' @ map preload_call (pending w ?m')"
      using "1.IH" [OF True] st(2) by simp
    moreover have "applyPreloads w m = applyPreloads w ?m'"
      using True by (subst applyPreloads.simps) simp
    ultimately show ?thesis
      using st(1) by (simp add: pending_def preload_call_def)
  next
    case False
    then have e: "slice_elems w (preloads m) = []"
      by (cases "preloads m") (auto simp: slice_elems_def slice_len_def)
    from False show ?thesis
      by (subst applyPreloads.simps) (simp add: pending_def e)
  qed
qed


text \<open>
  Claim C6: applying the preload queue returns a facade whose queue is empty and whose
  trace map is the one of the input facade; on an empty queue the handle stays as it
  is. applyPreloads reads the heap and returns a facade and nothing else: it has no
  error result and writes neither to the log nor to the heap.
\<close>

theorem applyPreloads_drains_queue:
  "preloads (applyPreloads w m) = None
   \<and> pending w (applyPreloads w m) = []
   \<and> logTrace (applyPreloads w m) = logTrace m
   \<and> trace_fields w (applyPreloads w m) = trace_fields w m
   \<and> (slice_len (preloads m) = 0 \<longrightarrow> db (applyPreloads w m) = db m)"
  by (simp add: applyPreloads_preloads applyPreloads_logTrace applyPreloads_empty pending_def
      slice_elems_def trace_fields_def)

text \<open>
  Witness for C6: the facade that New returns has an empty queue.
\<close>

theorem applyPreloads_drains_queue_witness:
  "slice_len (preloads fresh_facade) = 0
   \<and> db (applyPreloads empty_world fresh_facade) = db fresh_facade
   \<and> preloads (applyPreloads empty_world fresh_facade) = None"
  using applyPreloads_drains_queue [of empty_world fresh_facade]
  by (simp add: fresh_facade_def slice_len_def)

section \<open>Properties of the terminal operations\<close>

text \<open>The facade and the heap that \<^verbatim>\<open>New(...).Preload("Role")\<close> leaves.\<close>

definition role_facade :: Model where
  "role_facade = \<lparr>db = [], logTrace = Some 0, preloads = Some \<lparr>arr = 0, off = 0, len = 1, cap = 1\<rparr>\<rparr>"

definition role_world :: world where
  "role_world =
     \<lparr>maps = [fmupd ''preloadColumn-Role'' (Plain (VString ''Role'')) fmempty],
      arrays = [[\<lparr>field = ''Role'', conditions = []\<rparr>]], logged = [], issued = []\<rparr>"

definition users_dest :: gval where
  "users_dest = VPtr (TSlice (TStruct ''User'' [(''Name'', TString)]))
                  (Some (VSlice (TStruct ''User'' [(''Name'', TString)]) None))"

lemma role_facade_built:
  "Preload (\<lambda>n. n) ''Role'' [] fresh_facade empty_world = (role_facade, role_world)"
  by (simp add: Preload_def initLogTrace_def map_store_def go_append_def slice_len_def
      slice_cap_def slice_elems_def Let_def fresh_facade_def empty_world_def role_facade_def
      role_world_def)

lemma role_pending: "pending role_world role_facade = [\<lparr>field = ''Role'', conditions = []\<rparr>]"
  by (simp add: pending_def slice_elems_def role_facade_def role_world_def)

lemma role_slice_ok: "slice_ok role_world (preloads role_facade)"
  by (simp add: slice_ok_def role_facade_def role_world_def)

text \<open>
  Claim C1, as stated, fails for Count: with one directive in the queue, the statement
  that Count runs is the bare handle followed by Count, without the preload.
\<close>

theorem Count_skips_preloads_counterexample:
  "Preload (\<lambda>n. n) ''Role'' [] fresh_facade empty_world = (role_facade, role_world)
   \<and> pending role_world role_facade = [\<lparr>field = ''Role'', conditions = []\<rparr>]
   \<and> issued (snd (Count engine_fine [] role_facade role_world)) = [[E_Count]]
   \<and> E_Preload ''Role'' [] \<notin> set (last (issued (snd (Count engine_fine [] role_facade role_world))))"
  by (simp add: role_facade_built role_pending)
     (simp add: Count_def Let_def run_stmt_def engine_fine_def role_facade_def role_world_def)

text \<open>
  Claim C1, amended: every terminal operation other than Count (Pluck, First, Last, Take,
  Find, Scan, Create, Save, Updates, Delete, exec, BatchFind, and UpdateByFilter once its
  guard has passed) runs the statement made of the receiver's handle, then every
  directive of the queue in the order in which they were added, then the engine
  operation; Count runs its engine operation on the receiver's handle as it is.
\<close>

theorem terminal_call_applies_preloads:
  assumes "slice_ok w (preloads m)" and "passes_guard t"
  shows "\<exists>r w'. terminal_call eng stack t m w = Returns (r, w')
     \<and> issued w' = issued w @
         [db m @ (if t = T_Count then [] else map preload_call (pending w m)) @ engine_op t]"
proof (cases t)
  case (T_UpdateByFilter fltr vals)
  with assms show ?thesis
    by (auto simp: UpdateByFilter_def reflect_DeepEqual_def Let_def run_stmt_def log_Error_def
        applyPreloads_db split: option.splits)
qed (use assms in \<open>simp_all add: Pluck_def First_def Last_def Take_def Find_def Scan_def
      Create_def Save_def Updates_def Delete_def Count_def exec_def BatchFind_def Let_def
      run_stmt_def log_Error_def applyPreloads_db\<close>)

text \<open>
  Witness for C1: Find on a facade with the directive Role in its queue.
\<close>

theorem terminal_call_applies_preloads_witness:
  "slice_ok role_world (preloads role_facade) \<and> passes_guard (T_Find users_dest [])
   \<and> (\<exists>r w'. terminal_call engine_fine [] (T_Find users_dest []) role_facade role_world
                 = Returns (r, w')
        \<and> issued w' = [[E_Preload ''Role'' [], E_Find users_dest []]])"
  using terminal_call_applies_preloads [of role_world role_facade "T_Find users_dest []"
      engine_fine "[]"] role_slice_ok
  by (simp add: role_pending preload_call_def) (simp add: role_facade_def role_world_def)

text \<open>
  Claim C3, amended: a terminal operation that reaches the engine returns nil and logs
  nothing when the engine reports no error. First, Last and Take return the NotFound
  sentinel, and log nothing, when the error is or wraps the engine's record-not-found
  error. In every other case of a non-nil error (any error for the other operations,
  record-not-found included) the result is the Internal sentinel and exactly one entry,
  of error level and carrying the engine's error, is added to the log.
\<close>

theorem terminal_call_classifies_error:
  assumes "passes_guard t"
  shows "case terminal_call eng stack t m w of
           Panics p \<Rightarrow> False
         | Returns (r, w') \<Rightarrow>
             (let err = engine_answer eng t m (last (issued w')) in
                if err = None then r = None \<and> logged w' = logged w
                else if singular_fetch t \<and> errors_Is err ErrRecordNotFound
                  then r = Some ErrNotFound \<and> logged w' = logged w
                else r = Some ErrInternal
                   \<and> logged w' = logged w @ [last (logged w')]
                   \<and> level (last (logged w')) = ErrorLevel
                   \<and> err_field (last (logged w')) = err)"
proof (cases t)
  case (T_UpdateByFilter fltr vals)
  with assms obtain ty where ty: "reflect_TypeOf fltr = Some ty" "fltr \<noteq> reflect_Zero ty"
    by (auto split: option.splits)
  with T_UpdateByFilter show ?thesis
    by (simp add: UpdateByFilter_def reflect_DeepEqual_def Let_def run_stmt_def log_Error_def)
next
  case T_Count
  then show ?thesis
    by (simp add: Count_def Let_def run_stmt_def log_Error_def)
qed (simp_all add: Pluck_def First_def Last_def Take_def Find_def Scan_def
      Create_def Save_def Updates_def Delete_def exec_def BatchFind_def Let_def
      run_stmt_def log_Error_def errors_Is_def)


text \<open>
  Witness for C3: First against an engine that reports record-not-found.
\<close>

theorem terminal_call_classifies_error_witness:
  "passes_guard (T_First users_dest [])
   \<and> terminal_call engine_not_found [] (T_First users_dest []) fresh_facade empty_world
       = Returns (Some ErrNotFound, empty_world\<lparr>issued := [[E_First users_dest []]]\<rparr>)"
  using terminal_call_classifies_error [where t = "T_First users_dest []"
      and eng = engine_not_found and stack = "[]" and m = fresh_facade and w = empty_world]
  by (simp add: First_def Let_def run_stmt_def engine_not_found_def errors_Is_def
      applyPreloads_empty slice_len_def fresh_facade_def empty_world_def)

text \<open>
  Claim C3, as stated, fails for Find: when the engine reports record-not-found, Find
  returns the Internal sentinel and writes a log entry.
\<close>

theorem Find_not_found_counterexample:
  "errors_Is (result engine_not_found [E_Find users_dest []]) ErrRecordNotFound
   \<and> fst (Find engine_not_found [] users_dest [] fresh_facade empty_world) = Some ErrInternal
   \<and> length (logged (snd (Find engine_not_found [] users_dest [] fresh_facade empty_world))) = 1"
  by (simp add: Find_def Let_def run_stmt_def log_Error_def engine_not_found_def errors_Is_def
      applyPreloads_empty slice_len_def fresh_facade_def empty_world_def)

text \<open>
  Claim C5 at the nil filter: the call panics inside the guard, before anything is
  logged or returned.
\<close>

theorem UpdateByFilter_nil_filter_panics:
  "UpdateByFilter eng stack Nil vals m w = Panics ''reflect: Zero(nil)''"
  by (simp add: UpdateByFilter_def)

text \<open>
  For a filter that has a type, the guard does what C5 says: the zero value of the type
  is rejected with one log entry and without a statement, any other value reaches the
  engine.
\<close>

lemma UpdateByFilter_typed_filter:
  assumes "reflect_TypeOf fltr = Some ty"
  shows "(fltr = reflect_Zero ty \<longrightarrow>
            UpdateByFilter eng stack fltr vals m w =
              Returns (Some ErrInternal,
                       w\<lparr>logged := logged w @
                          [\<lparr>level = ErrorLevel, err_field = None, data = fmempty,
                            message = ''queryBuilder.UpdateByFilter called for empty filter''\<rparr>]\<rparr>))
       \<and> (fltr \<noteq> reflect_Zero ty \<longrightarrow>
            (\<exists>r w'. UpdateByFilter eng stack fltr vals m w = Returns (r, w')
               \<and> issued w' = issued w @
                   [db (applyPreloads w m) @ [E_Model fltr, E_Where fltr [], E_Updates vals]]))"
proof (cases "fltr = reflect_Zero ty")
  case True
  have "UpdateByFilter eng stack fltr vals m w =
          Returns (Some ErrInternal,
                   log_Error None fmempty
                     ''queryBuilder.UpdateByFilter called for empty filter'' w)"
    unfolding UpdateByFilter_def reflect_DeepEqual_def using assms True by simp
  with True show ?thesis by (simp add: log_Error_def)
next
  case False
  with assms show ?thesis
    by (simp add: UpdateByFilter_def reflect_DeepEqual_def Let_def run_stmt_def log_Error_def)
qed

section \<open>Properties of the configuration calls\<close>

lemma go_append_inplace_elems:
  assumes "off0 + n < length A"
  shows "take (Suc n) (drop off0 (A[off0 + n := x])) = take n (drop off0 A) @ [x]"
    and "take n (drop off0 (A[off0 + n := x])) = take n (drop off0 A)"
proof -
  have d: "drop off0 (A[off0 + n := x]) = (drop off0 A)[n := x]"
    by (simp add: drop_update_swap)
  have l: "n < length (drop off0 A)" using assms by simp
  show "take n (drop off0 (A[off0 + n := x])) = take n (drop off0 A)"
    by (simp add: d)
  then show "take (Suc n) (drop off0 (A[off0 + n := x])) = take n (drop off0 A) @ [x]"
    using l by (simp add: d take_Suc_conv_app_nth)
qed

lemma slice_elems_length: "slice_ok w s \<Longrightarrow> length (slice_elems w s) = slice_len s"
  by (auto simp: slice_ok_def slice_elems_def slice_len_def split: option.splits)

lemma go_append_elems:
  assumes "slice_ok w s" and "go_append grow s x w = (s', w')"
  shows "slice_ok w' s' \<and> slice_elems w' s' = slice_elems w s @ [x]
       \<and> slice_elems w' s = slice_elems w s \<and> slice_ok w' s
       \<and> maps w' = maps w \<and> logged w' = logged w \<and> issued w' = issued w"
proof (cases "slice_len s < slice_cap s")
  case True
  then obtain sl where s: "s = Some sl" and lc: "len sl < cap sl"
    by (cases s) (auto simp: slice_len_def slice_cap_def)
  from assms(1) s have b: "arr sl < length (arrays w)"
      "off sl + cap sl \<le> length (arrays w ! arr sl)"
    by (auto simp: slice_ok_def)
  from b lc have i: "off sl + len sl < length (arrays w ! arr sl)" by linarith
  from True assms(2) s have s': "s' = Some (sl\<lparr>len := len sl + 1\<rparr>)"
    and w': "w' = w\<lparr>arrays := (arrays w)[arr sl :=
                      (arrays w ! arr sl)[off sl + len sl := x]]\<rparr>"
    by (auto simp: go_append_def)
  have "slice_ok w' s'" using b lc by (simp add: s' w' slice_ok_def)
  moreover have "slice_ok w' s" using b lc by (simp add: s w' slice_ok_def)
  moreover have "slice_elems w' s' = slice_elems w s @ [x]"
    using b go_append_inplace_elems(1) [OF i] by (simp add: s s' w' slice_elems_def)
  moreover have "slice_elems w' s = slice_elems w s"
    using b go_append_inplace_elems(2) [OF i] by (simp add: s w' slice_elems_def)
  ultimately show ?thesis by (simp add: w')
next
  case False
  let ?n = "slice_len s + 1"
  let ?c = "max ?n (grow ?n)"
  from False assms(2) have s': "s' = Some \<lparr>arr = length (arrays w), off = 0, len = ?n, cap = ?c\<rparr>"
    and w': "w' = w\<lparr>arrays := arrays w @
               [slice_elems w s @ [x] @ replicate (?c - ?n) zero_preload]\<rparr>"
    by (auto simp: go_append_def Let_def)
  have l: "length (slice_elems w s) = slice_len s"
    using assms(1) by (rule slice_elems_length)
  have "slice_ok w' s'" using l by (simp add: s' w' slice_ok_def)
  moreover have "slice_elems w' s' = slice_elems w s @ [x]"
    using l by (simp add: s' w' slice_elems_def)
  moreover have "slice_elems w' s = slice_elems w s"
    using assms(1) by (auto simp: w' slice_elems_def slice_ok_def nth_append split: option.splits)
  moreover have "slice_ok w' s"
    using assms(1) by (auto simp: w' slice_ok_def nth_append split: option.splits)
  ultimately show ?thesis by (simp add: w')
qed

text \<open>
  The effect of the configuration calls in one form: the trace map the call writes to
  (\<open>trace_addr\<close>, \<open>put_trace\<close>), the entries it writes (\<open>trace_update\<close>), what it appends
  to the handle (\<open>handle_calls\<close>) and to the preload queue (\<open>queued\<close>). The lemmas
  \<open>Preload_writes\<close> and \<open>config_call_writes\<close> show that the methods do this.
\<close>

definition trace_addr :: "nat option \<Rightarrow> world \<Rightarrow> nat" where
  "trace_addr l w = (case l of None \<Rightarrow> length (maps w) | Some a \<Rightarrow> a)"

definition put_trace :: "nat option \<Rightarrow> (Fields \<Rightarrow> Fields) \<Rightarrow> world \<Rightarrow> world" where
  "put_trace l F w =
     (case l of None \<Rightarrow> w\<lparr>maps := maps w @ [F fmempty]\<rparr>
      | Some a \<Rightarrow> w\<lparr>maps := (maps w)[a := F (maps w ! a)]\<rparr>)"

definition indexed_update :: "string \<Rightarrow> tval \<Rightarrow> string \<Rightarrow> tval option \<Rightarrow> Fields \<Rightarrow> Fields" where
  "indexed_update p v p2 v2 t =
     (let i = first_free t p 0; t1 = fmupd (p @ strconv_Itoa i) v t
      in case v2 of None \<Rightarrow> t1 | Some x \<Rightarrow> fmupd (p2 @ strconv_Itoa i) x t1)"

definition args_entry :: "(gval \<Rightarrow> tval) \<Rightarrow> gval list \<Rightarrow> tval option" where
  "args_entry f args = (if length args > 0 then Some (f (slice_of args)) else None)"

definition fixed_update :: "string \<Rightarrow> tval \<Rightarrow> string \<Rightarrow> tval option \<Rightarrow> Fields \<Rightarrow> Fields" where
  "fixed_update k v k2 v2 t =
     (case v2 of None \<Rightarrow> fmupd k v t | Some x \<Rightarrow> fmupd k2 x (fmupd k v t))"

fun trace_update :: "config \<Rightarrow> Fields \<Rightarrow> Fields" where
  "trace_update (C_Preload column conds) =
     fixed_update (''preloadColumn-'' @ column) (Plain (VString column))
       (''preloadConditions-'' @ column) (args_entry Plain conds)"
| "trace_update C_Debug = (\<lambda>t. t)"
| "trace_update C_Unscoped = fmupd ''unscoped'' (Plain (VBool True))"
| "trace_update C_IgnoreConflicts = fmupd ''ignoreConflicts'' (Plain (VBool True))"
| "trace_update (C_Model v) = fmupd ''model'' (Pretty v)"
| "trace_update (C_Select query args) =
     fixed_update ''selectQuery'' (Plain query) ''selectArgs'' (args_entry Pretty args)"
| "trace_update (C_Table name) = fmupd ''tableName'' (Plain (VString name))"
| "trace_update (C_Limit limit) = fmupd ''limit'' (Plain (VInt limit))"
| "trace_update (C_Offset offset) = fmupd ''offset'' (Plain (VInt offset))"
| "trace_update (C_Order v) = fmupd ''order'' (Pretty v)"
| "trace_update (C_Set name v) =
     indexed_update ''setName'' (Plain (VString name)) ''setValue'' (Some (Plain v))"
| "trace_update (C_Omit vs) = fmupd ''omit'' (Plain (strings_of vs))"
| "trace_update (C_Where query args) =
     indexed_update ''whereQuery'' (Pretty query) ''whereArgs'' (args_entry Pretty args)"
| "trace_update (C_Not query args) =
     fixed_update ''notQuery'' (Pretty query) ''notArgs'' (args_entry Plain args)"
| "trace_update (C_Group name) = fmupd ''groupName'' (Plain (VString name))"
| "trace_update (C_Having query args) =
     fixed_update ''havingQuery'' (Plain query) ''havingArgs'' (args_entry Plain args)"
| "trace_update (C_Joins query args) =
     indexed_update ''joinsQuery'' (Plain (VString query)) ''joinsArgs'' (args_entry Pretty args)"
| "trace_update (C_raw sql vs) =
     fixed_update ''rawSql'' (Plain (VString sql)) ''rawValues'' (args_entry Plain vs)"

fun handle_calls :: "config \<Rightarrow> engine_call list" where
  "handle_calls (C_Preload column conds) = []"
| "handle_calls C_Debug = [E_Debug]"
| "handle_calls C_Unscoped = [E_Unscoped]"
| "handle_calls C_IgnoreConflicts = [E_Clauses_OnConflict_DoNothing]"
| "handle_calls (C_Model v) = [E_Model v]"
| "handle_calls (C_Select query args) = [E_Select query args]"
| "handle_calls (C_Table name) = [E_Table name]"
| "handle_calls (C_Limit limit) = [E_Limit limit]"
| "handle_calls (C_Offset offset) = [E_Offset offset]"
| "handle_calls (C_Order v) = [E_Order v]"
| "handle_calls (C_Set name v) = [E_Set name v]"
| "handle_calls (C_Omit vs) = [E_Omit vs]"
| "handle_calls (C_Where query args) = [E_Where query args]"
| "handle_calls (C_Not query args) = [E_Not query args]"
| "handle_calls (C_Group name) = [E_Group name]"
| "handle_calls (C_Having query args) = [E_Having query args]"
| "handle_calls (C_Joins query args) = [E_Joins query [slice_of args]]"
| "handle_calls (C_raw sql vs) = [E_Raw sql vs]"

fun queued :: "config \<Rightarrow> preload list" where
  "queued (C_Preload column conds) = [\<lparr>field = column, conditions = conds\<rparr>]"
| "queued c = []"

lemma Preload_writes:
  assumes "trace_ok w (logTrace m)"
  shows "Preload grow column conds m w =
     (case go_append grow (preloads m) \<lparr>field = column, conditions = conds\<rparr>
             (put_trace (logTrace m) (trace_update (C_Preload column conds)) w) of
        (ps, w4) \<Rightarrow>
          (\<lparr>db = db m, logTrace = Some (trace_addr (logTrace m) w), preloads = ps\<rparr>, w4))"
  using assms
  by (cases "logTrace m")
     (simp_all add: Preload_def initLogTrace_def map_store_def put_trace_def trace_addr_def
       trace_ok_def Let_def fixed_update_def args_entry_def split: prod.splits)

lemma config_call_writes:
  assumes "trace_ok w (logTrace m)" and "c \<noteq> C_Debug" and "queued c = []"
  shows "config_call grow c m w =
     (\<lparr>db = db m @ handle_calls c,
       logTrace = (if c = C_Unscoped then logTrace m else Some (trace_addr (logTrace m) w)),
       preloads = preloads m\<rparr>,
      put_trace (logTrace m) (trace_update c) w)"
proof (cases "logTrace m")
  case None
  then show ?thesis using assms(2,3)
    by (cases c)
       (simp_all add: Unscoped_def IgnoreConflicts_def Model_def Select_def Table_def
         Limit_def Offset_def Order_def Set_def Omit_def Where_def Not_m_def Group_def Having_def
         Joins_def raw_def initLogTrace_def map_store_def put_trace_def trace_addr_def Let_def
         indexed_update_def fixed_update_def args_entry_def)
next
  case (Some a)
  with assms(1) have a: "a < length (maps w)" by (simp add: trace_ok_def)
  from Some a show ?thesis using assms(2,3)
    by (cases c)
       (simp_all add: Unscoped_def IgnoreConflicts_def Model_def Select_def Table_def
         Limit_def Offset_def Order_def Set_def Omit_def Where_def Not_m_def Group_def Having_def
         Joins_def raw_def initLogTrace_def map_store_def put_trace_def trace_addr_def Let_def
         indexed_update_def fixed_update_def args_entry_def)
qed


lemma put_trace_rest [simp]:
  "arrays (put_trace l F w) = arrays w"
  "logged (put_trace l F w) = logged w"
  "issued (put_trace l F w) = issued w"
  by (simp_all add: put_trace_def split: option.splits)

lemma put_trace_slices [simp]:
  "slice_ok (put_trace l F w) s = slice_ok w s"
  "slice_elems (put_trace l F w) s = slice_elems w s"
  by (simp_all add: slice_ok_def slice_elems_def split: option.splits)

lemma put_trace_trace_ok:
  "trace_ok w t \<Longrightarrow> trace_ok (put_trace l F w) t"
  by (auto simp: trace_ok_def put_trace_def split: option.splits)

lemma put_trace_addr_ok:
  "trace_ok w l \<Longrightarrow> trace_ok (put_trace l F w) (Some (trace_addr l w))"
  by (auto simp: trace_ok_def put_trace_def trace_addr_def split: option.splits)

lemma put_trace_fields:
  assumes "trace_ok w l" and "trace_ok w (logTrace x)"
  shows "trace_fields (put_trace l F w) x =
           (if l \<noteq> None \<and> logTrace x = l then F (trace_fields w x) else trace_fields w x)"
  using assms
  by (auto simp: trace_ok_def put_trace_def trace_fields_def nth_append split: option.splits)

lemma put_trace_new_fields:
  assumes "trace_ok w l" and "logTrace b = Some (trace_addr l w)"
  shows "trace_fields (put_trace l F w) b =
           F (case l of None \<Rightarrow> fmempty | Some a \<Rightarrow> maps w ! a)"
  using assms
  by (auto simp: trace_ok_def put_trace_def trace_fields_def trace_addr_def split: option.splits)

lemma length_nth_update_same:
  "length ((A[i := (A ! i)[k := p]]) ! j) = length (A ! j)"
  by (cases "i < length A") (simp_all add: nth_list_update list_update_beyond)

lemma go_append_frame:
  assumes "slice_ok w sx" and "go_append grow s p w = (s', w')"
  shows "slice_ok w' sx"
    and "\<not> slice_len s < slice_cap s \<Longrightarrow> slice_elems w' sx = slice_elems w sx"
proof -
  show "slice_ok w' sx"
    using assms
    by (auto simp: go_append_def Let_def slice_ok_def nth_append length_nth_update_same
        split: if_splits option.splits)
  assume "\<not> slice_len s < slice_cap s"
  with assms show "slice_elems w' sx = slice_elems w sx"
    by (auto simp: go_append_def Let_def slice_ok_def slice_elems_def nth_append
        split: option.splits)
qed


lemma maps_only:
  "maps w1 = maps w2 \<Longrightarrow> trace_fields w1 x = trace_fields w2 x"
  "maps w1 = maps w2 \<Longrightarrow> trace_ok w1 l = trace_ok w2 l"
  by (simp_all add: trace_fields_def trace_ok_def split: option.splits)

lemma full_slice: "slice_ok w s \<Longrightarrow> slice_len s = slice_cap s \<longleftrightarrow> \<not> slice_len s < slice_cap s"
  by (auto simp: slice_ok_def slice_len_def slice_cap_def split: option.splits)

lemma config_call_frame:
  assumes wa: "wf_facade w a" and wx: "wf_facade w x" and cc: "config_call grow c a w = (b, w')"
  shows "pending w' a = pending w a
     \<and> pending w' b = pending w a @ queued c
     \<and> db b = db a @ handle_calls c
     \<and> wf_facade w' a \<and> wf_facade w' b \<and> wf_facade w' x
     \<and> logged w' = logged w \<and> issued w' = issued w
     \<and> (logTrace a = None \<longrightarrow>
           trace_fields w' x = trace_fields w x
           \<and> (logTrace b = None \<or> logTrace b = Some (length (maps w))))
     \<and> (logTrace a \<noteq> None \<longrightarrow> logTrace b = logTrace a)
     \<and> ((queued c = [] \<or> slice_len (preloads a) = slice_cap (preloads a)) \<longrightarrow>
           pending w' x = pending w x)"
proof -
  from wa have ta: "trace_ok w (logTrace a)" and sa: "slice_ok w (preloads a)"
    by (simp_all add: wf_facade_def)
  from wx have tx: "trace_ok w (logTrace x)" and sx: "slice_ok w (preloads x)"
    by (simp_all add: wf_facade_def)
  let ?w3 = "put_trace (logTrace a) (trace_update c) w"
  have f3: "logTrace a = None \<longrightarrow> trace_fields ?w3 x = trace_fields w x"
    using put_trace_fields [OF ta tx, of "trace_update c"] by (cases "logTrace a") auto
  have ok3: "trace_ok ?w3 (logTrace a)" "trace_ok ?w3 (logTrace x)"
      "trace_ok ?w3 (Some (trace_addr (logTrace a) w))"
    using ta tx by (simp_all add: put_trace_trace_ok put_trace_addr_ok)
  have addr: "logTrace a = None \<longrightarrow> trace_addr (logTrace a) w = length (maps w)"
      "logTrace a \<noteq> None \<longrightarrow> Some (trace_addr (logTrace a) w) = logTrace a"
    by (auto simp: trace_addr_def)
  consider (dbg) "c = C_Debug" | (plain) "c \<noteq> C_Debug" "queued c = []"
    | (pre) column conds where "c = C_Preload column conds"
    by (cases c) auto
  then show ?thesis
  proof cases
    case dbg
    with cc have "b = \<lparr>db = db a @ [E_Debug], logTrace = logTrace a, preloads = preloads a\<rparr>"
      and "w' = w"
      by (simp_all add: Debug_def)
    with wa wx dbg show ?thesis
      by (simp add: wf_facade_def pending_def)
  next
    case plain
    from config_call_writes [OF ta plain] cc
    have b: "b = \<lparr>db = db a @ handle_calls c,
                  logTrace = (if c = C_Unscoped then logTrace a
                              else Some (trace_addr (logTrace a) w)),
                  preloads = preloads a\<rparr>"
      and w': "w' = ?w3"
      by simp_all
    show ?thesis
      using sa sx ok3 f3 addr plain(2)
      by (auto simp: b w' wf_facade_def pending_def)
  next
    case pre
    obtain ps w4 where ga: "go_append grow (preloads a) \<lparr>field = column, conditions = conds\<rparr> ?w3
        = (ps, w4)"
      by (cases "go_append grow (preloads a) \<lparr>field = column, conditions = conds\<rparr> ?w3") auto
    from Preload_writes [OF ta, of grow column conds] cc pre ga
    have b: "b = \<lparr>db = db a, logTrace = Some (trace_addr (logTrace a) w), preloads = ps\<rparr>"
      and w': "w' = w4"
      by simp_all
    have sa3: "slice_ok ?w3 (preloads a)" and sx3: "slice_ok ?w3 (preloads x)"
      using sa sx by simp_all
    note e = go_append_elems [OF sa3 ga]
    note fr = go_append_frame [OF sx3 ga]
    from e have m4: "maps w4 = maps ?w3" by simp
    have full: "slice_len (preloads a) = slice_cap (preloads a) \<longrightarrow>
        slice_elems w4 (preloads x) = slice_elems w (preloads x)"
      using fr(2) full_slice [OF sa] by simp
    show ?thesis
      using e fr(1) full ok3 f3 addr pre
      by (auto simp: b w' wf_facade_def pending_def maps_only [OF m4])
  qed
qed


lemma config_call_trace:
  assumes wa: "wf_facade w a" and cc: "config_call grow c a w = (b, w')"
  shows "trace_fields w' b =
           (if logTrace b = None then fmempty else trace_update c (trace_fields w a))"
proof -
  from wa have ta: "trace_ok w (logTrace a)" and sa: "slice_ok w (preloads a)"
    by (simp_all add: wf_facade_def)
  let ?w3 = "put_trace (logTrace a) (trace_update c) w"
  have new: "\<And>b'. logTrace b' = Some (trace_addr (logTrace a) w) \<Longrightarrow>
      trace_fields ?w3 b' = trace_update c (trace_fields w a)"
    using put_trace_new_fields [OF ta] by (simp add: trace_fields_def)
  have same: "logTrace a \<noteq> None \<Longrightarrow> Some (trace_addr (logTrace a) w) = logTrace a"
    by (auto simp: trace_addr_def)
  consider (dbg) "c = C_Debug" | (plain) "c \<noteq> C_Debug" "queued c = []"
    | (pre) column conds where "c = C_Preload column conds"
    by (cases c) auto
  then show ?thesis
  proof cases
    case dbg
    with cc have "b = \<lparr>db = db a @ [E_Debug], logTrace = logTrace a, preloads = preloads a\<rparr>"
      and "w' = w"
      by (simp_all add: Debug_def)
    with dbg show ?thesis by (simp add: trace_fields_def)
  next
    case plain
    from config_call_writes [OF ta plain] cc
    have b: "b = \<lparr>db = db a @ handle_calls c,
                  logTrace = (if c = C_Unscoped then logTrace a
                              else Some (trace_addr (logTrace a) w)),
                  preloads = preloads a\<rparr>"
      and w': "w' = ?w3"
      by simp_all
    show ?thesis
    proof (cases "logTrace b = None")
      case True
      then show ?thesis by (simp add: trace_fields_def)
    next
      case False
      with b same have "logTrace b = Some (trace_addr (logTrace a) w)"
        by (auto split: if_splits)
      from new [OF this] False show ?thesis by (auto simp: w')
    qed
  next
    case pre
    obtain ps w4 where ga: "go_append grow (preloads a) \<lparr>field = column, conditions = conds\<rparr> ?w3
        = (ps, w4)"
      by (cases "go_append grow (preloads a) \<lparr>field = column, conditions = conds\<rparr> ?w3") auto
    from Preload_writes [OF ta, of grow column conds] cc pre ga
    have b: "b = \<lparr>db = db a, logTrace = Some (trace_addr (logTrace a) w), preloads = ps\<rparr>"
      and w': "w' = w4"
      by simp_all
    have sa3: "slice_ok ?w3 (preloads a)" using sa by simp
    from go_append_elems [OF sa3 ga] have m4: "maps w4 = maps ?w3" by simp
    from b have "logTrace b = Some (trace_addr (logTrace a) w)" by simp
    from new [OF this] show ?thesis
      by (simp add: b w' maps_only(1) [OF m4])
  qed
qed

lemma config_call_bystander:
  assumes wa: "wf_facade w a" and wx: "wf_facade w x" and cc: "config_call grow c a w = (b, w')"
  shows "trace_fields w' x =
           (if logTrace a \<noteq> None \<and> logTrace x = logTrace a
            then trace_update c (trace_fields w x) else trace_fields w x)"
proof -
  from wa have ta: "trace_ok w (logTrace a)" and sa: "slice_ok w (preloads a)"
    by (simp_all add: wf_facade_def)
  from wx have tx: "trace_ok w (logTrace x)" by (simp add: wf_facade_def)
  let ?w3 = "put_trace (logTrace a) (trace_update c) w"
  note f3 = put_trace_fields [OF ta tx, of "trace_update c"]
  consider (dbg) "c = C_Debug" | (plain) "c \<noteq> C_Debug" "queued c = []"
    | (pre) column conds where "c = C_Preload column conds"
    by (cases c) auto
  then show ?thesis
  proof cases
    case dbg
    with cc have "w' = w" by (simp add: Debug_def)
    with dbg show ?thesis by simp
  next
    case plain
    from config_call_writes [OF ta plain] cc have "w' = ?w3" by simp
    with f3 show ?thesis by simp
  next
    case pre
    obtain ps w4 where ga: "go_append grow (preloads a) \<lparr>field = column, conditions = conds\<rparr> ?w3
        = (ps, w4)"
      by (cases "go_append grow (preloads a) \<lparr>field = column, conditions = conds\<rparr> ?w3") auto
    from Preload_writes [OF ta, of grow column conds] cc pre ga have w': "w' = w4" by simp
    have sa3: "slice_ok ?w3 (preloads a)" using sa by simp
    from go_append_elems [OF sa3 ga] have m4: "maps w4 = maps ?w3" by simp
    from f3 show ?thesis by (simp add: w' maps_only(1) [OF m4])
  qed
qed

text \<open>The facade and the heap that \<^verbatim>\<open>New(...).Table("users")\<close> leaves.\<close>

definition users_facade :: Model where
  "users_facade = \<lparr>db = [E_Table ''users''], logTrace = Some 0, preloads = None\<rparr>"

definition users_world :: world where
  "users_world =
     \<lparr>maps = [fmupd ''tableName'' (Plain (VString ''users'')) fmempty],
      arrays = [], logged = [], issued = []\<rparr>"

text \<open>
  Claim C2, as stated, fails: the facade that Table returns has a trace map, and Limit,
  called on that facade, writes its entry into this very map, so that the receiver
  shows the entry \<open>limit\<close> after the call.
\<close>

theorem Limit_writes_receiver_trace_counterexample:
  "Table ''users'' fresh_facade empty_world = (users_facade, users_world)
   \<and> fmlookup (trace_fields users_world users_facade) ''limit'' = None
   \<and> fmlookup (trace_fields (snd (Limit 10 users_facade users_world)) users_facade) ''limit''
       = Some (Plain (VInt 10))"
  by (simp add: Table_def Limit_def initLogTrace_def map_store_def Let_def trace_fields_def
      fresh_facade_def empty_world_def users_facade_def users_world_def)

text \<open>
  Claim C2, amended: a configuration call on a facade \<open>a\<close> returns a facade \<open>b\<close> whose
  preload queue is the queue of \<open>a\<close> followed by what the call queues, and leaves the
  queue of \<open>a\<close> as it was. When \<open>a\<close> has no trace map (nil, as on a facade that New or
  Begin returns), the trace map of every facade \<open>x\<close> that exists before the call, \<open>a\<close>
  included, is unchanged, and \<open>b\<close> has no trace map or a newly made one that holds the
  entries of this call and nothing else. When \<open>a\<close> has a trace map, \<open>b\<close> holds the same
  map by reference and the call writes its entries (\<open>trace_update c\<close>) into that map: \<open>a\<close>,
  \<open>b\<close> and every existing facade \<open>x\<close> that holds the map show them after the call, and
  the maps of the other facades are unchanged. The preload queue of every existing
  facade \<open>x\<close> is unchanged when the call queues nothing or the preload slice of \<open>a\<close> has
  no spare capacity. So, of two facades derived from the same \<open>a\<close>, neither shows the
  trace entries or the preload directives of the other when \<open>a\<close> has a nil trace map and
  a preload slice without spare capacity; when \<open>a\<close> has a trace map, each shows the trace
  entries of the other. Nothing is said of the engine handles of the two.
\<close>

theorem config_call_receiver:
  assumes "wf_facade w a" and "wf_facade w x" and "config_call grow c a w = (b, w')"
  shows "pending w' a = pending w a
     \<and> pending w' b = pending w a @ queued c
     \<and> (logTrace a = None \<longrightarrow>
           trace_fields w' x = trace_fields w x
           \<and> (logTrace b = None \<or> logTrace b = Some (length (maps w)))
           \<and> trace_fields w' b =
               (if logTrace b = None then fmempty else trace_update c fmempty))
     \<and> (logTrace a \<noteq> None \<longrightarrow>
           logTrace b = logTrace a
           \<and> trace_fields w' a = trace_update c (trace_fields w a)
           \<and> trace_fields w' b = trace_update c (trace_fields w a)
           \<and> trace_fields w' x =
               (if logTrace x = logTrace a then trace_update c (trace_fields w x)
                else trace_fields w x))
     \<and> ((queued c = [] \<or> slice_len (preloads a) = slice_cap (preloads a)) \<longrightarrow>
           pending w' x = pending w x)"
proof -
  note fr = config_call_frame [OF assms]
  note tb = config_call_trace [OF assms(1,3)]
  note ta = config_call_bystander [OF assms(1) assms(1) assms(3)]
  note tx = config_call_bystander [OF assms]
  have none: "logTrace a = None \<longrightarrow>
      trace_fields w' b = (if logTrace b = None then fmempty else trace_update c fmempty)"
    using tb by (simp add: trace_fields_def)
  have some: "logTrace a \<noteq> None \<longrightarrow>
      trace_fields w' a = trace_update c (trace_fields w a)
      \<and> trace_fields w' b = trace_update c (trace_fields w a)
      \<and> trace_fields w' x =
          (if logTrace x = logTrace a then trace_update c (trace_fields w x)
           else trace_fields w x)"
    using fr ta tb tx by auto
  from fr none some show ?thesis by simp
qed

lemma example_facades_wf:
  "wf_facade role_world fresh_facade" "wf_facade role_world role_facade"
  by (simp_all add: wf_facade_def slice_ok_def trace_ok_def fresh_facade_def role_facade_def
      role_world_def)

lemma Table_on_fresh:
  "config_call (\<lambda>n. n) (C_Table ''users'') fresh_facade role_world =
     (\<lparr>db = [E_Table ''users''], logTrace = Some 1, preloads = None\<rparr>,
      role_world\<lparr>maps := maps role_world @ [fmupd ''tableName'' (Plain (VString ''users'')) fmempty]\<rparr>)"
  by (simp add: Table_def initLogTrace_def map_store_def Let_def fresh_facade_def role_world_def)

lemma Limit_on_role:
  "config_call (\<lambda>n. n) (C_Limit 10) role_facade role_world =
     (\<lparr>db = [E_Limit 10], logTrace = Some 0, preloads = preloads role_facade\<rparr>,
      role_world\<lparr>maps := [fmupd ''limit'' (Plain (VInt 10)) (maps role_world ! 0)]\<rparr>)"
  by (simp add: Limit_def initLogTrace_def map_store_def Let_def role_facade_def role_world_def)

text \<open>
  Witness for C2: Table on the fresh facade, with the facade that holds the directive
  Role as the bystander, and Limit on that facade.
\<close>

theorem config_call_receiver_witness:
  "wf_facade role_world fresh_facade \<and> wf_facade role_world role_facade
   \<and> logTrace fresh_facade = None \<and> queued (C_Table ''users'') = []
   \<and> trace_fields
        (role_world\<lparr>maps := maps role_world @ [fmupd ''tableName'' (Plain (VString ''users'')) fmempty]\<rparr>)
        role_facade = trace_fields role_world role_facade
   \<and> pending
        (role_world\<lparr>maps := maps role_world @ [fmupd ''tableName'' (Plain (VString ''users'')) fmempty]\<rparr>)
        role_facade = pending role_world role_facade
   \<and> logTrace role_facade \<noteq> None
   \<and> logTrace \<lparr>db = [E_Limit 10], logTrace = Some 0, preloads = preloads role_facade\<rparr>
       = logTrace role_facade
   \<and> fmlookup (trace_fields
         (role_world\<lparr>maps := [fmupd ''limit'' (Plain (VInt 10)) (maps role_world ! 0)]\<rparr>)
         role_facade) ''limit'' = Some (Plain (VInt 10))"
proof -
  note t1 = config_call_receiver [OF example_facades_wf(1) example_facades_wf(2) Table_on_fresh]
  note t2 = config_call_receiver [OF example_facades_wf(2) example_facades_wf(2) Limit_on_role]
  have n1: "logTrace fresh_facade = None" by (simp add: fresh_facade_def)
  have q: "queued (C_Table ''users'') = []" by simp
  have n2: "logTrace role_facade \<noteq> None" by (simp add: role_facade_def)
  from t1 n1 q have "trace_fields
        (role_world\<lparr>maps := maps role_world @ [fmupd ''tableName'' (Plain (VString ''users'')) fmempty]\<rparr>)
        role_facade = trace_fields role_world role_facade"
    and "pending
        (role_world\<lparr>maps := maps role_world @ [fmupd ''tableName'' (Plain (VString ''users'')) fmempty]\<rparr>)
        role_facade = pending role_world role_facade"
    by blast+
  moreover from t2 n2
  have "logTrace \<lparr>db = [E_Limit 10], logTrace = Some 0, preloads = preloads role_facade\<rparr>
       = logTrace role_facade"
    by blast
  moreover from t2 n2
  have "trace_fields
         (role_world\<lparr>maps := [fmupd ''limit'' (Plain (VInt 10)) (maps role_world ! 0)]\<rparr>)
         role_facade = trace_update (C_Limit 10) (trace_fields role_world role_facade)"
    by blast
  then have "fmlookup (trace_fields
         (role_world\<lparr>maps := [fmupd ''limit'' (Plain (VInt 10)) (maps role_world ! 0)]\<rparr>)
         role_facade) ''limit'' = Some (Plain (VInt 10))"
    by simp
  ultimately show ?thesis
    using example_facades_wf n1 n2 q by blast
qed

text \<open>Two facades derived from one receiver whose preload slice has spare capacity share
  the backing array: the directive of the second call replaces the one of the first.\<close>

definition spare_facade :: Model where
  "spare_facade = \<lparr>db = [], logTrace = Some 0, preloads = Some \<lparr>arr = 0, off = 0, len = 1, cap = 2\<rparr>\<rparr>"

definition spare_world :: world where
  "spare_world =
     \<lparr>maps = [fmupd ''preloadColumn-A'' (Plain (VString ''A'')) fmempty],
      arrays = [[\<lparr>field = ''A'', conditions = []\<rparr>, zero_preload]], logged = [], issued = []\<rparr>"

lemma Preload_siblings_share_array:
  "Preload (\<lambda>n. 2 * n) ''A'' [] fresh_facade empty_world = (spare_facade, spare_world)
   \<and> (case Preload (\<lambda>n. 2 * n) ''B'' [] spare_facade spare_world of (b1, w1) \<Rightarrow>
        case Preload (\<lambda>n. 2 * n) ''C'' [] spare_facade w1 of (b2, w2) \<Rightarrow>
          map field (pending w1 b1) = [''A'', ''B''] \<and> map field (pending w2 b1) = [''A'', ''C'']
          \<and> map field (pending w2 spare_facade) = [''A''])"
  by (simp add: Preload_def initLogTrace_def map_store_def go_append_def slice_len_def
      slice_cap_def slice_elems_def Let_def pending_def fresh_facade_def empty_world_def
      spare_facade_def spare_world_def)

text \<open>
  Claim C10: Joins, called with one or more extra arguments, hands them to the engine as
  one argument, the slice; Select, Where, Not, Having, raw and Omit hand their variadic
  arguments over one by one, and the conditions of Preload reach the engine one by one
  when applyPreloads applies the directive.
\<close>

theorem Joins_forwards_args_as_one_value:
  assumes "args \<noteq> []" and "wf_facade w m"
  shows "db (fst (Joins query args m w)) = db m @ [E_Joins query [VSlice TIface (Some args)]]
     \<and> db (fst (Select q args m w)) = db m @ [E_Select q args]
     \<and> db (fst (Where q args m w)) = db m @ [E_Where q args]
     \<and> db (fst (Not_m q args m w)) = db m @ [E_Not q args]
     \<and> db (fst (Having q args m w)) = db m @ [E_Having q args]
     \<and> db (fst (raw sql args m w)) = db m @ [E_Raw sql args]
     \<and> db (fst (Omit vs m w)) = db m @ [E_Omit vs]
     \<and> (case Preload grow column args m w of (m', w') \<Rightarrow>
           db (applyPreloads w' m') = db m @ map preload_call (pending w m) @ [E_Preload column args])"
proof -
  obtain m' w' where p: "config_call grow (C_Preload column args) m w = (m', w')"
    by (cases "config_call grow (C_Preload column args) m w") auto
  note fr = config_call_frame [OF assms(2) assms(2) p]
  from fr have "slice_ok w' (preloads m')" by (simp add: wf_facade_def)
  from applyPreloads_db [OF this] fr
  have "db (applyPreloads w' m') = db m @ map preload_call (pending w m) @ [E_Preload column args]"
    by (simp add: preload_call_def)
  with p have pre: "case Preload grow column args m w of (m', w') \<Rightarrow>
      db (applyPreloads w' m') = db m @ map preload_call (pending w m) @ [E_Preload column args]"
    by simp
  have rest: "db (fst (Joins query args m w)) = db m @ [E_Joins query [VSlice TIface (Some args)]]"
    "db (fst (Select q args m w)) = db m @ [E_Select q args]"
    "db (fst (Where q args m w)) = db m @ [E_Where q args]"
    "db (fst (Not_m q args m w)) = db m @ [E_Not q args]"
    "db (fst (Having q args m w)) = db m @ [E_Having q args]"
    "db (fst (raw sql args m w)) = db m @ [E_Raw sql args]"
    "db (fst (Omit vs m w)) = db m @ [E_Omit vs]"
    using assms(1)
    by (simp_all add: Joins_def Select_def Where_def Not_m_def Having_def raw_def Omit_def
        Let_def slice_of_def split: prod.splits)
  from rest pre show ?thesis by simp
qed

text \<open>
  Witness for C10: Joins and Where with the same two arguments.
\<close>

theorem Joins_forwards_args_as_one_value_witness:
  "[VInt 1, VString ''x''] \<noteq> [] \<and> wf_facade empty_world fresh_facade
   \<and> db (fst (Joins ''JOIN roles ON roles.id = ? AND roles.name = ?'' [VInt 1, VString ''x'']
                 fresh_facade empty_world))
       = [E_Joins ''JOIN roles ON roles.id = ? AND roles.name = ?''
            [VSlice TIface (Some [VInt 1, VString ''x''])]]
   \<and> db (fst (Where (VString ''id = ? AND name = ?'') [VInt 1, VString ''x'']
                 fresh_facade empty_world))
       = [E_Where (VString ''id = ? AND name = ?'') [VInt 1, VString ''x'']]"
proof -
  have w: "wf_facade empty_world fresh_facade"
    by (simp add: wf_facade_def slice_ok_def trace_ok_def fresh_facade_def)
  have n: "[VInt 1, VString ''x''] \<noteq> []" by simp
  from Joins_forwards_args_as_one_value [OF n w,
      where query = "''JOIN roles ON roles.id = ? AND roles.name = ?''"
        and q = "VString ''id = ? AND name = ?''"]
    w show ?thesis
    by (simp add: fresh_facade_def)
qed

section \<open>Properties of the trace keys\<close>

lemma first_free_spec:
  "i \<le> first_free t p i
   \<and> fmlookup t (p @ strconv_Itoa (first_free t p i)) = None
   \<and> (\<forall>j. i \<le> j \<and> j < first_free t p i \<longrightarrow> fmlookup t (p @ strconv_Itoa j) \<noteq> None)"
proof (induction t p i rule: first_free.induct)
  case (1 t p i)
  show ?case
  proof (cases "fmlookup t (p @ strconv_Itoa i) \<noteq> None")
    case True
    then have eq: "first_free t p i = first_free t p (Suc i)"
      by (subst first_free.simps) simp
    from "1.IH" [OF True] have ih: "Suc i \<le> first_free t p (Suc i)"
      "fmlookup t (p @ strconv_Itoa (first_free t p (Suc i))) = None"
      "\<forall>j. Suc i \<le> j \<and> j < first_free t p (Suc i) \<longrightarrow> fmlookup t (p @ strconv_Itoa j) \<noteq> None"
      by simp_all
    have "\<forall>j. i \<le> j \<and> j < first_free t p (Suc i) \<longrightarrow> fmlookup t (p @ strconv_Itoa j) \<noteq> None"
    proof (intro allI impI)
      fix j assume j: "i \<le> j \<and> j < first_free t p (Suc i)"
      show "fmlookup t (p @ strconv_Itoa j) \<noteq> None"
      proof (cases "j = i")
        case True
        with \<open>fmlookup t (p @ strconv_Itoa i) \<noteq> None\<close> show ?thesis by simp
      next
        case False
        with j have "Suc i \<le> j \<and> j < first_free t p (Suc i)" by simp
        with ih(3) show ?thesis by blast
      qed
    qed
    with ih(1,2) show ?thesis by (simp add: eq)
  next
    case False
    then have "first_free t p i = i"
      by (subst first_free.simps) simp
    with False show ?thesis by auto
  qed
qed

text \<open>The scan stops at a number that does not exceed the number of keys of the map,
  so the counter stays far below the range of a Go \<^verbatim>\<open>int\<close>.\<close>

lemma first_free_bound: "first_free t p 0 \<le> card (fmdom' t)"
proof -
  let ?n = "first_free t p 0"
  have "(\<lambda>j. p @ strconv_Itoa j) ` {..<?n} \<subseteq> fmdom' t"
    using first_free_spec [of 0 t p] by (auto simp: fmlookup_dom'_iff)
  then have "card ((\<lambda>j. p @ strconv_Itoa j) ` {..<?n}) \<le> card (fmdom' t)"
    by (simp add: card_mono)
  moreover have "inj_on (\<lambda>j. p @ strconv_Itoa j) {..<?n}"
    by (auto simp: inj_on_def dest: Itoa_inj)
  ultimately show ?thesis by (simp add: card_image)
qed

text \<open>In a trace map that the methods have built, an entry for the arguments of a Where,
  Joins or Set call has the entry of the call itself beside it.\<close>

definition keys_paired :: "Fields \<Rightarrow> bool" where
  "keys_paired t =
     (\<forall>i. (fmlookup t (''whereArgs'' @ strconv_Itoa i) \<noteq> None
              \<longrightarrow> fmlookup t (''whereQuery'' @ strconv_Itoa i) \<noteq> None)
        \<and> (fmlookup t (''joinsArgs'' @ strconv_Itoa i) \<noteq> None
              \<longrightarrow> fmlookup t (''joinsQuery'' @ strconv_Itoa i) \<noteq> None)
        \<and> (fmlookup t (''setValue'' @ strconv_Itoa i) \<noteq> None
              \<longrightarrow> fmlookup t (''setName'' @ strconv_Itoa i) \<noteq> None))"

definition args_key :: "string \<Rightarrow> bool" where
  "args_key k =
     (\<exists>i. k = ''whereArgs'' @ strconv_Itoa i \<or> k = ''joinsArgs'' @ strconv_Itoa i
        \<or> k = ''setValue'' @ strconv_Itoa i)"

definition key_pair :: "string \<Rightarrow> string \<Rightarrow> bool" where
  "key_pair p p2 =
     ((p, p2) \<in> {(''whereQuery'', ''whereArgs''), (''joinsQuery'', ''joinsArgs''),
                 (''setName'', ''setValue'')})"

lemma keys_paired_empty: "keys_paired fmempty"
  by (simp add: keys_paired_def)

lemma keys_paired_fmupd:
  "keys_paired t \<Longrightarrow> \<not> args_key k \<Longrightarrow> keys_paired (fmupd k v t)"
  unfolding keys_paired_def args_key_def by auto

lemma keys_paired_args:
  assumes "keys_paired t" and "key_pair p p2" and "fmlookup t (p @ strconv_Itoa i) \<noteq> None"
  shows "keys_paired (fmupd (p2 @ strconv_Itoa i) x t)"
  using assms unfolding keys_paired_def key_pair_def
  by (auto dest: Itoa_inj)

lemma query_not_args_key:
  "key_pair p p2 \<Longrightarrow> \<not> args_key (p @ strconv_Itoa i)"
  by (auto simp: key_pair_def args_key_def)

lemma keys_paired_absent:
  assumes "keys_paired t" and "key_pair p p2" and "fmlookup t (p @ strconv_Itoa i) = None"
  shows "fmlookup t (p2 @ strconv_Itoa i) = None"
  using assms unfolding keys_paired_def key_pair_def by auto

lemma key_pair_distinct: "key_pair p p2 \<Longrightarrow> p2 @ a \<noteq> p @ b"
  by (auto simp: key_pair_def)

lemma indexed_update_paired:
  assumes "keys_paired t" and "key_pair p p2"
  shows "keys_paired (indexed_update p v p2 v2 t)"
proof -
  let ?i = "first_free t p 0"
  let ?t1 = "fmupd (p @ strconv_Itoa ?i) v t"
  have 1: "keys_paired ?t1"
    using assms by (simp add: keys_paired_fmupd query_not_args_key)
  have "fmlookup ?t1 (p @ strconv_Itoa ?i) \<noteq> None" by simp
  from keys_paired_args [OF 1 assms(2) this] 1 show ?thesis
    by (simp add: indexed_update_def Let_def split: option.splits)
qed

lemma indexed_update_keeps:
  assumes "keys_paired t" and "key_pair p p2"
  shows "fmlookup (indexed_update p v p2 va t) (p @ strconv_Itoa (first_free t p 0)) = Some v"
    and "fmlookup t k = Some y \<Longrightarrow> fmlookup (indexed_update p v p2 va t) k = Some y"
proof -
  let ?i = "first_free t p 0"
  have a: "fmlookup t (p @ strconv_Itoa ?i) = None"
    using first_free_spec [of 0 t p] by simp
  have b: "fmlookup t (p2 @ strconv_Itoa ?i) = None"
    using keys_paired_absent [OF assms a] .
  show "fmlookup (indexed_update p v p2 va t) (p @ strconv_Itoa ?i) = Some v"
    using key_pair_distinct [OF assms(2), of "strconv_Itoa ?i" "strconv_Itoa ?i"]
    by (simp add: indexed_update_def Let_def split: option.splits)
  assume "fmlookup t k = Some y"
  with a b show "fmlookup (indexed_update p v p2 va t) k = Some y"
    by (auto simp: indexed_update_def Let_def split: option.splits)
qed

lemma fixed_update_paired:
  assumes "keys_paired t" and "\<not> args_key k" and "\<not> args_key k2"
  shows "keys_paired (fixed_update k v k2 v2 t)"
  using assms by (simp add: fixed_update_def keys_paired_fmupd split: option.splits)

lemma trace_update_paired:
  assumes "keys_paired t"
  shows "keys_paired (trace_update c t)"
proof (cases c)
  case (C_Set name v)
  with assms show ?thesis by (simp add: indexed_update_paired key_pair_def)
next
  case (C_Where query args)
  with assms show ?thesis by (simp add: indexed_update_paired key_pair_def)
next
  case (C_Joins query args)
  with assms show ?thesis by (simp add: indexed_update_paired key_pair_def)
qed (use assms in \<open>simp_all add: fixed_update_paired keys_paired_fmupd args_key_def\<close>)


text \<open>What holds of a facade along a chain that starts at a facade without a trace map.\<close>

definition chain_inv :: "world \<Rightarrow> Model \<Rightarrow> bool" where
  "chain_inv w m = (wf_facade w m \<and> keys_paired (trace_fields w m))"

lemma config_call_inv:
  assumes "chain_inv w a" and "config_call grow c a w = (b, w')"
  shows "chain_inv w' b"
proof -
  from assms(1) have wa: "wf_facade w a" and kp: "keys_paired (trace_fields w a)"
    by (simp_all add: chain_inv_def)
  from config_call_frame [OF wa wa assms(2)] have "wf_facade w' b" by simp
  moreover have "keys_paired (trace_fields w' b)"
    using config_call_trace [OF wa assms(2)] trace_update_paired [OF kp]
    by (simp add: keys_paired_empty)
  ultimately show ?thesis by (simp add: chain_inv_def)
qed

lemma chain_keeps_inv:
  "chain_inv w m \<Longrightarrow> chain grow cs m w = (m', w') \<Longrightarrow> chain_inv w' m'"
proof (induction cs arbitrary: m w)
  case Nil
  then show ?case by simp
next
  case (Cons c cs)
  obtain m1 w1 where c1: "config_call grow c m w = (m1, w1)"
    by (cases "config_call grow c m w") auto
  from config_call_inv [OF Cons.prems(1) c1] have "chain_inv w1 m1" .
  moreover from Cons.prems(2) c1 have "chain grow cs m1 w1 = (m', w')" by simp
  ultimately show ?case by (rule Cons.IH)
qed

lemma fresh_chain_inv:
  "logTrace m = None \<Longrightarrow> slice_ok w (preloads m) \<Longrightarrow> chain_inv w m"
  by (simp add: chain_inv_def wf_facade_def trace_ok_def trace_fields_def keys_paired_empty)

text \<open>The methods that number their trace keys: the prefix of the key and the entry.\<close>

fun numbered_entry :: "config \<Rightarrow> (string \<times> tval) option" where
  "numbered_entry (C_Where query args) = Some (''whereQuery'', Pretty query)"
| "numbered_entry (C_Joins query args) = Some (''joinsQuery'', Plain (VString query))"
| "numbered_entry (C_Set name v) = Some (''setName'', Plain (VString name))"
| "numbered_entry c = None"

lemma numbered_call_keeps:
  assumes inv: "chain_inv w1 m1"
    and ne: "numbered_entry c = Some (p, e)"
    and cc: "config_call grow c m1 w1 = (m2, w2)"
  shows "fmlookup (trace_fields w1 m1) (p @ strconv_Itoa (first_free (trace_fields w1 m1) p 0)) = None
     \<and> (\<forall>j < first_free (trace_fields w1 m1) p 0.
           fmlookup (trace_fields w1 m1) (p @ strconv_Itoa j) \<noteq> None)
     \<and> fmlookup (trace_fields w2 m2) (p @ strconv_Itoa (first_free (trace_fields w1 m1) p 0))
         = Some e
     \<and> (\<forall>k v. fmlookup (trace_fields w1 m1) k = Some v
           \<longrightarrow> fmlookup (trace_fields w2 m2) k = Some v)"
proof -
  let ?t = "trace_fields w1 m1"
  from inv have wa: "wf_facade w1 m1" and kp: "keys_paired ?t"
    by (simp_all add: chain_inv_def)
  from ne obtain p2 v2 where upd: "trace_update c = indexed_update p e p2 v2" and pair: "key_pair p p2"
    by (cases c) (auto simp: key_pair_def)
  from ne have plain: "c \<noteq> C_Debug" "queued c = []" "c \<noteq> C_Unscoped"
    by (cases c; simp)+
  from wa have ta: "trace_ok w1 (logTrace m1)" by (simp add: wf_facade_def)
  from config_call_writes [OF ta plain(1,2)] cc plain(3) have "logTrace m2 \<noteq> None"
    by auto
  with config_call_trace [OF wa cc] upd
  have t2: "trace_fields w2 m2 = indexed_update p e p2 v2 ?t"
    by simp
  from first_free_spec [of 0 ?t p]
  have "fmlookup ?t (p @ strconv_Itoa (first_free ?t p 0)) = None"
    and "\<forall>j < first_free ?t p 0. fmlookup ?t (p @ strconv_Itoa j) \<noteq> None"
    by simp_all
  with indexed_update_keeps [OF kp pair, where v = e and va = v2] show ?thesis
    by (simp add: t2)
qed


text \<open>
  Claim C4, as stated, fails for Select: it writes the fixed key \<open>selectQuery\<close>, so in a
  chain with two Select calls the entry of the first call is replaced by the entry of
  the second and the map keeps one entry.
\<close>

theorem Select_twice_overwrites_counterexample:
  "(case Select (VString ''id'') [] fresh_facade empty_world of (m1, w1) \<Rightarrow>
      case Select (VString ''name'') [] m1 w1 of (m2, w2) \<Rightarrow>
        trace_fields w1 m1 = fmupd ''selectQuery'' (Plain (VString ''id'')) fmempty
        \<and> trace_fields w2 m2 = fmupd ''selectQuery'' (Plain (VString ''name'')) fmempty)"
  by (simp add: Select_def initLogTrace_def map_store_def Let_def trace_fields_def
      fresh_facade_def empty_world_def)

text \<open>
  Claim C4, amended: in every chain that starts at a facade without a trace map, a call
  of Where, Joins or Set stores its trace entry under the key that carries the first
  unused number found by scanning the existing keys from 0, and every entry that the map
  held before the call is still there, with its value, after the call. Two calls of one
  of these methods in a chain therefore keep both entries, under distinct keys.
\<close>

theorem numbered_calls_keep_entries:
  assumes "logTrace m0 = None" and "slice_ok w0 (preloads m0)"
    and "chain grow cs m0 w0 = (m1, w1)"
    and "numbered_entry c = Some (p, e)"
    and "config_call grow c m1 w1 = (m2, w2)"
  shows "fmlookup (trace_fields w1 m1) (p @ strconv_Itoa (first_free (trace_fields w1 m1) p 0)) = None
     \<and> (\<forall>j < first_free (trace_fields w1 m1) p 0.
           fmlookup (trace_fields w1 m1) (p @ strconv_Itoa j) \<noteq> None)
     \<and> fmlookup (trace_fields w2 m2) (p @ strconv_Itoa (first_free (trace_fields w1 m1) p 0))
         = Some e
     \<and> (\<forall>k v. fmlookup (trace_fields w1 m1) k = Some v
           \<longrightarrow> fmlookup (trace_fields w2 m2) k = Some v)"
proof -
  from assms(1,2) have "chain_inv w0 m0" by (rule fresh_chain_inv)
  from chain_keeps_inv [OF this assms(3)] have "chain_inv w1 m1" .
  from numbered_call_keeps [OF this assms(4,5)] show ?thesis .
qed

text \<open>The facade and the heap that \<^verbatim>\<open>New(...).Where("a = ?", 1)\<close> leaves.\<close>

definition where_facade :: Model where
  "where_facade = \<lparr>db = [E_Where (VString ''a = ?'') [VInt 1]], logTrace = Some 0, preloads = None\<rparr>"

definition where_world :: world where
  "where_world =
     \<lparr>maps = [fmupd ''whereArgs0'' (Pretty (VSlice TIface (Some [VInt 1])))
                (fmupd ''whereQuery0'' (Pretty (VString ''a = ?'')) fmempty)],
      arrays = [], logged = [], issued = []\<rparr>"

lemma Itoa_small: "strconv_Itoa 0 = ''0''" "strconv_Itoa (Suc 0) = ''1''"
  by (simp_all add: strconv_Itoa.simps digit_char_def)

lemma first_free_fresh: "first_free fmempty p 0 = 0"
  by (subst first_free.simps) simp

lemma where_facade_built:
  "chain (\<lambda>n. n) [C_Where (VString ''a = ?'') [VInt 1]] fresh_facade empty_world
     = (where_facade, where_world)"
  by (simp add: Where_def initLogTrace_def map_store_def Let_def first_free_fresh Itoa_small
      slice_of_def fresh_facade_def empty_world_def where_facade_def where_world_def)

lemma first_free_where_world: "first_free (maps where_world ! 0) ''whereQuery'' 0 = Suc 0"
  by (subst first_free.simps, simp add: where_world_def Itoa_small)
     (subst first_free.simps, simp add: where_world_def Itoa_small)

lemma second_where:
  "config_call (\<lambda>n. n) (C_Where (VString ''b = ?'') [VInt 2]) where_facade where_world =
     (\<lparr>db = [E_Where (VString ''a = ?'') [VInt 1], E_Where (VString ''b = ?'') [VInt 2]],
       logTrace = Some 0, preloads = None\<rparr>,
      where_world\<lparr>maps :=
        [fmupd ''whereArgs1'' (Pretty (VSlice TIface (Some [VInt 2])))
          (fmupd ''whereQuery1'' (Pretty (VString ''b = ?'')) (maps where_world ! 0))]\<rparr>)"
  using first_free_where_world
  by (simp add: Where_def initLogTrace_def map_store_def Let_def Itoa_small
      slice_of_def where_facade_def)
     (simp add: where_world_def)

text \<open>
  Witness for C4: two Where calls in a chain; the entry of the first stays under
  \<open>whereQuery0\<close> and the second goes to \<open>whereQuery1\<close>.
\<close>

theorem numbered_calls_keep_entries_witness:
  "logTrace fresh_facade = None \<and> slice_ok empty_world (preloads fresh_facade)
   \<and> chain (\<lambda>n. n) [C_Where (VString ''a = ?'') [VInt 1]] fresh_facade empty_world
       = (where_facade, where_world)
   \<and> numbered_entry (C_Where (VString ''b = ?'') [VInt 2])
       = Some (''whereQuery'', Pretty (VString ''b = ?''))
   \<and> fmlookup (trace_fields where_world where_facade) ''whereQuery0''
       = Some (Pretty (VString ''a = ?''))
   \<and> fmlookup (trace_fields
         (where_world\<lparr>maps :=
            [fmupd ''whereArgs1'' (Pretty (VSlice TIface (Some [VInt 2])))
              (fmupd ''whereQuery1'' (Pretty (VString ''b = ?'')) (maps where_world ! 0))]\<rparr>)
         \<lparr>db = [E_Where (VString ''a = ?'') [VInt 1], E_Where (VString ''b = ?'') [VInt 2]],
           logTrace = Some 0, preloads = None\<rparr>) ''whereQuery0''
       = Some (Pretty (VString ''a = ?''))
   \<and> fmlookup (trace_fields
         (where_world\<lparr>maps :=
            [fmupd ''whereArgs1'' (Pretty (VSlice TIface (Some [VInt 2])))
              (fmupd ''whereQuery1'' (Pretty (VString ''b = ?'')) (maps where_world ! 0))]\<rparr>)
         \<lparr>db = [E_Where (VString ''a = ?'') [VInt 1], E_Where (VString ''b = ?'') [VInt 2]],
           logTrace = Some 0, preloads = None\<rparr>) ''whereQuery1''
       = Some (Pretty (VString ''b = ?''))"
proof -
  have h1: "logTrace fresh_facade = None" by (simp add: fresh_facade_def)
  have h2: "slice_ok empty_world (preloads fresh_facade)"
    by (simp add: slice_ok_def fresh_facade_def)
  have h4: "numbered_entry (C_Where (VString ''b = ?'') [VInt 2])
       = Some (''whereQuery'', Pretty (VString ''b = ?''))" by simp
  have t1: "trace_fields where_world where_facade = maps where_world ! 0"
    by (simp add: trace_fields_def where_facade_def)
  have old: "fmlookup (trace_fields where_world where_facade) ''whereQuery0''
       = Some (Pretty (VString ''a = ?''))"
    by (simp add: trace_fields_def where_facade_def where_world_def)
  note inst = numbered_calls_keep_entries [OF h1 h2 where_facade_built h4 second_where]
  from inst old have kept: "fmlookup (trace_fields
         (where_world\<lparr>maps :=
            [fmupd ''whereArgs1'' (Pretty (VSlice TIface (Some [VInt 2])))
              (fmupd ''whereQuery1'' (Pretty (VString ''b = ?'')) (maps where_world ! 0))]\<rparr>)
         \<lparr>db = [E_Where (VString ''a = ?'') [VInt 1], E_Where (VString ''b = ?'') [VInt 2]],
           logTrace = Some 0, preloads = None\<rparr>) ''whereQuery0''
       = Some (Pretty (VString ''a = ?''))"
    by blast
  from inst have new: "fmlookup (trace_fields
         (where_world\<lparr>maps :=
            [fmupd ''whereArgs1'' (Pretty (VSlice TIface (Some [VInt 2])))
              (fmupd ''whereQuery1'' (Pretty (VString ''b = ?'')) (maps where_world ! 0))]\<rparr>)
         \<lparr>db = [E_Where (VString ''a = ?'') [VInt 1], E_Where (VString ''b = ?'') [VInt 2]],
           logTrace = Some 0, preloads = None\<rparr>) ''whereQuery1''
       = Some (Pretty (VString ''b = ?''))"
    by (simp add: t1 first_free_where_world Itoa_small)
  from h1 h2 where_facade_built h4 old kept new show ?thesis by blast
qed

end
